theory Spec2Isabelle
  imports Main "HOL-Library.AList"
begin

section \<open>The registration store of fragnation\_bot.py\<close>

text \<open>
  The bot keeps one JSON document, \<^verbatim>\<open>data.json\<close>, with three collections:
  \<^verbatim>\<open>{"solos": {}, "teams": {}, "payments": {}}\<close>.
  Discord identifiers are natural numbers. A \<^verbatim>\<open>payment_msg\<close> or \<^verbatim>\<open>admin_msg\<close> value is
  either \<^verbatim>\<open>None\<close> or the pair of a channel id and a message id.
  Text is modelled as ASCII character lists.
\<close>

type_synonym user_id = nat

record msg_ref =
  channel_id :: nat
  message_id :: nat

text \<open>An entry of \<^verbatim>\<open>data["solos"]\<close>. The key \<^verbatim>\<open>payment_txn\<close> is absent until
  \<^verbatim>\<open>verify_cmd\<close> sets it: absent is \<open>None\<close>.\<close>

record solo =
  discord_id :: user_id
  real_name :: string
  ign :: string
  current_rank :: string
  peak_rank :: string
  paid :: bool
  payment_proof :: string
  payment_msg :: "msg_ref option"
  payment_txn :: "string option"

text \<open>An element of \<^verbatim>\<open>team["members"]\<close>; the fields carry the prefix \<open>m_\<close> because a
  record field name is global in HOL.\<close>

record member =
  m_discord_id :: user_id
  m_ign :: "string option"
  m_paid :: bool
  m_payment_proof :: "string option"
  m_payment_msg :: "msg_ref option"
  m_payment_txn :: "string option"

text \<open>An entry of \<^verbatim>\<open>data["teams"]\<close>. The key \<^verbatim>\<open>admin_msg\<close> is absent until the team
  notice has been posted.\<close>

record team =
  team_name :: string
  captain_id :: user_id
  members :: "member list"
  confirmed :: bool
  admin_msg :: "msg_ref option"

text \<open>
  The keys of \<^verbatim>\<open>data["payments"]\<close> are the strings \<^verbatim>\<open>f"solo-{user.id}"\<close>,
  \<^verbatim>\<open>f"team-{code}-created"\<close> and \<^verbatim>\<open>f"team-{code}-member-{user.id}"\<close>. The three
  formats never produce the same string from different arguments (the first starts
  with \<^verbatim>\<open>solo\<close>, the second ends in a letter, the third ends in the decimal digits that
  follow its last \<^verbatim>\<open>-member-\<close>), so a key is modelled by the format and its arguments.
\<close>

datatype pay_key =
  SoloKey user_id
  | TeamCreatedKey string
  | TeamMemberKey string user_id

record payment =
  p_type :: string
  p_user_id :: "user_id option"
  p_team_code :: "string option"
  p_channel_id :: nat
  p_message_id :: nat
  status :: string

text \<open>The document. \<^verbatim>\<open>verify_cmd\<close> and \<^verbatim>\<open>reject_cmd\<close> walk \<^verbatim>\<open>data["teams"].items()\<close>
  in insertion order, so the teams are an association list in that order.\<close>

record store =
  solos :: "user_id \<rightharpoonup> solo"
  teams :: "(string \<times> team) list"
  payments :: "pay_key \<rightharpoonup> payment"

definition empty_store :: store where
  "empty_store = \<lparr>solos = Map.empty, teams = [], payments = Map.empty\<rparr>"

subsection \<open>Text normalisation\<close>

text \<open>\<^verbatim>\<open>str.strip()\<close>, \<^verbatim>\<open>str.lower()\<close> and \<^verbatim>\<open>str.upper()\<close> on ASCII text. The white space
  of \<^verbatim>\<open>str.isspace\<close> below code point 128 is the blank, the codes 9 to 13 and 28 to 31.\<close>

definition is_space :: "char \<Rightarrow> bool" where
  "is_space c =
     (c \<in> set [CHR 0x09, CHR 0x0A, CHR 0x0B, CHR 0x0C, CHR 0x0D,
                CHR 0x1C, CHR 0x1D, CHR 0x1E, CHR 0x1F, CHR '' ''])"

definition strip :: "string \<Rightarrow> string" where
  "strip s = rev (dropWhile is_space (rev (dropWhile is_space s)))"

definition upper_letters :: string where
  "upper_letters = ''ABCDEFGHIJKLMNOPQRSTUVWXYZ''"

definition lower_letters :: string where
  "lower_letters = ''abcdefghijklmnopqrstuvwxyz''"

definition lower_char :: "char \<Rightarrow> char" where
  "lower_char c = (case map_of (zip upper_letters lower_letters) c of None \<Rightarrow> c | Some d \<Rightarrow> d)"

definition upper_char :: "char \<Rightarrow> char" where
  "upper_char c = (case map_of (zip lower_letters upper_letters) c of None \<Rightarrow> c | Some d \<Rightarrow> d)"

definition lower :: "string \<Rightarrow> string" where
  "lower s = map lower_char s"

definition upper :: "string \<Rightarrow> string" where
  "upper s = map upper_char s"

subsection \<open>Join codes\<close>

text \<open>\<^verbatim>\<open>string.ascii_uppercase + string.digits\<close>\<close>

definition alphabet :: string where
  "alphabet = ''ABCDEFGHIJKLMNOPQRSTUVWXYZ0123456789''"

text \<open>
  \<^verbatim>\<open>make_join_code(length=6)\<close> is \<^verbatim>\<open>''.join(random.choices(alphabet, k=length))\<close>: six
  independent draws of an index into the alphabet. The random source is a stream of
  natural numbers; draw \<open>k\<close> selects the character at index \<open>rnd k mod 36\<close>.
\<close>

type_synonym rng = "nat \<Rightarrow> nat"

definition make_join_code :: "rng \<Rightarrow> string" where
  "make_join_code rnd = map (\<lambda>k. alphabet ! (rnd k mod length alphabet)) [0..<6]"

text \<open>
  The allocation loop of \<^verbatim>\<open>handle_team_registration\<close>:
  \<^verbatim>\<open>
  code = make_join_code()
  data = await load_data()
  while code in data["teams"]:
      code = make_join_code()
  \<close>
  Each call of the generator consumes six draws. The loop has no bound, so the model
  is a partial function: \<open>None\<close> is the run that never leaves the loop.
\<close>

partial_function (option) allocate :: "rng \<Rightarrow> string list \<Rightarrow> string option" where
  "allocate rnd keys =
     (if make_join_code rnd \<in> set keys then allocate (\<lambda>k. rnd (k + 6)) keys
      else Some (make_join_code rnd))"


section \<open>Effects\<close>

text \<open>
  A handler is a coroutine that sends messages, waits for replies, reads and writes
  \<^verbatim>\<open>data.json\<close> and posts or edits embeds. The model of a handler is the list of these
  effects in the order the handler performs them. What the handler reads is an
  argument: the list of events that its successive \<^verbatim>\<open>bot.wait_for\<close> calls deliver
  (an exhausted list is a wait that times out), the reference that
  \<^verbatim>\<open>post_payment_embed\<close> returns (\<open>None\<close> when the bot finds no guild to post in), and
  the content of \<^verbatim>\<open>data.json\<close> when the handler calls \<^verbatim>\<open>load_data\<close>. A handler runs
  alone: between its \<^verbatim>\<open>load_data\<close> and its last \<^verbatim>\<open>save_data\<close> no other handler writes
  the file. The library calls raise nothing but what the source catches.
\<close>

datatype event = Reply string | Timeout

text \<open>The texts the bot sends, by the place that sends them.\<close>

datatype msg =
  Welcome                    \<comment> \<open>"Do you want to register as solo or team?"\<close>
  | CouldNotDM               \<comment> \<open>"I couldn't DM you."\<close>
  | TimedOutRegister         \<comment> \<open>"Timed out. Please run !register again when ready."\<close>
  | ChoseSolo                \<comment> \<open>"You chose Solo registration. ... (Reply 'cancel' at any time to abort.)"\<close>
  | ChoseTeam                \<comment> \<open>"You chose Team registration. ... (Reply 'cancel' at any time to abort.)"\<close>
  | Unrecognized             \<comment> \<open>"Unrecognized option."\<close>
  | Question string          \<comment> \<open>the question of the solo flow that fills the given key\<close>
  | RegistrationCancelled    \<comment> \<open>"Registration cancelled."\<close>
  | SavedNoGuild             \<comment> \<open>"Registration saved locally but bot is not in any guild"\<close>
  | SoloThanks               \<comment> \<open>"Thanks - your solo registration is submitted"\<close>
  | AskTeamName              \<comment> \<open>"Enter your desired TEAM NAME (keep it short)."\<close>
  | TeamCreated string string \<comment> \<open>"Team ... created. Share this join code"; name and code\<close>
  | UseDM                    \<comment> \<open>"Please use this command in a DM with the bot (privacy)."\<close>
  | Usage                    \<comment> \<open>"Usage: !jointeam <CODE>"\<close>
  | InvalidCode              \<comment> \<open>"Invalid join code."\<close>
  | AlreadyMember            \<comment> \<open>"You are already a member of this team."\<close>
  | TeamFull                 \<comment> \<open>"This team already has 5 members."\<close>
  | AskIGN string            \<comment> \<open>"Joining team ... Please reply with your VALORANT IGN:"\<close>
  | JoinCancelled            \<comment> \<open>"Join cancelled."\<close>
  | AskPayment               \<comment> \<open>"Please pay ... and reply here with the transaction ID"\<close>
  | TimedOutJoin             \<comment> \<open>"Timed out. Please run !jointeam <CODE> again when ready."\<close>
  | NoGuildJoin              \<comment> \<open>"Bot is not connected to any guild to post payments."\<close>
  | JoinThanks               \<comment> \<open>"Thanks - your join request and payment proof have been submitted"\<close>
  | MarkedSolo               \<comment> \<open>"Marked ... (solo) as verified."\<close>
  | MarkedTeam string        \<comment> \<open>"Marked ... as verified for team ..."\<close>
  | NotFoundVerify           \<comment> \<open>"Could not find this user in solos or teams data."\<close>
  | RejectedSolo             \<comment> \<open>"Rejected solo payment for ..."\<close>
  | RejectedTeam string      \<comment> \<open>"Rejected payment for ... in team ..."\<close>
  | NotFoundReject           \<comment> \<open>"Could not find this user in registration records."\<close>
  | PaymentVerified          \<comment> \<open>direct message "Your payment ... has been verified"\<close>
  | PaymentRejected string   \<comment> \<open>direct message "Your payment ... was rejected"; the reason\<close>
  | NewSoloReceived          \<comment> \<open>"New solo registration received from ..."\<close>
  | TeamConfirmed string     \<comment> \<open>"Team ... is fully registered and confirmed!"; the code\<close>

datatype action =
  Send msg                               \<comment> \<open>\<^verbatim>\<open>dm.send\<close> or \<^verbatim>\<open>ctx.send\<close>: to the invoking user\<close>
  | WaitFor nat                          \<comment> \<open>\<^verbatim>\<open>bot.wait_for("message", check=..., timeout=n)\<close>\<close>
  | SaveData store                       \<comment> \<open>\<^verbatim>\<open>save_data(data)\<close>\<close>
  | PostEmbed string msg_ref             \<comment> \<open>\<^verbatim>\<open>post_payment_embed\<close>: the title, the reference returned\<close>
  | EditEmbed nat nat "string option"    \<comment> \<open>\<^verbatim>\<open>edit_payment_embed\<close>: channel id, message id, \<^verbatim>\<open>new_title\<close>\<close>
  | Announce msg                         \<comment> \<open>a message to the registration channel, when it exists\<close>
  | Notify user_id msg                   \<comment> \<open>\<^verbatim>\<open>member.send\<close>; a failure is swallowed\<close>
  | AddRole user_id string               \<comment> \<open>\<^verbatim>\<open>add_roles\<close> with the named role; a failure is swallowed\<close>

text \<open>The documents a handler writes, in order, and the document it leaves behind.\<close>

fun writes :: "action list \<Rightarrow> store list" where
  "writes [] = []"
| "writes (SaveData d # as) = d # writes as"
| "writes (a # as) = writes as"

definition final_store :: "store \<Rightarrow> action list \<Rightarrow> store" where
  "final_store s as = last (s # writes as)"

text \<open>The timeouts of the waits of a run, in order.\<close>

fun timeouts :: "action list \<Rightarrow> nat list" where
  "timeouts [] = []"
| "timeouts (WaitFor n # as) = n # timeouts as"
| "timeouts (a # as) = timeouts as"

definition ROLE_PARTICIPANT :: string where
  "ROLE_PARTICIPANT = ''Registered Player''"

definition ROLE_CAPTAIN :: string where
  "ROLE_CAPTAIN = ''Team Captain''"

section \<open>The solo flow\<close>

text \<open>The keys of the five questions of \<^verbatim>\<open>handle_solo_registration\<close>, in order.\<close>

definition questions :: "string list" where
  "questions = [''real_name'', ''ign'', ''current_rank'', ''peak_rank'', ''payment_proof'']"

text \<open>
  \<^verbatim>\<open>
  for q_text, key in questions:
      await dm_channel.send(q_text)
      msg = await bot.wait_for("message", check=check, timeout=600)
      text = msg.content.strip()
      if text.lower() == "cancel":
          await dm_channel.send("Registration cancelled."); return
      answers[key] = text
  \<close>
  with \<^verbatim>\<open>asyncio.TimeoutError\<close> caught around the loop. The result is the dictionary
  \<^verbatim>\<open>answers\<close>, or \<open>None\<close> when the handler has returned.
\<close>

fun ask_questions ::
  "string list \<Rightarrow> event list \<Rightarrow> (string \<rightharpoonup> string) \<Rightarrow> action list \<times> (string \<rightharpoonup> string) option" where
  "ask_questions [] evs answers = ([], Some answers)"
| "ask_questions (key # qs) [] answers =
     ([Send (Question key), WaitFor 600, Send TimedOutRegister], None)"
| "ask_questions (key # qs) (Timeout # evs) answers =
     ([Send (Question key), WaitFor 600, Send TimedOutRegister], None)"
| "ask_questions (key # qs) (Reply content # evs) answers =
     (if lower (strip content) = ''cancel''
      then ([Send (Question key), WaitFor 600, Send RegistrationCancelled], None)
      else (case ask_questions qs evs (answers(key \<mapsto> strip content)) of
              (acts, r) \<Rightarrow> (Send (Question key) # WaitFor 600 # acts, r)))"

text \<open>\<^verbatim>\<open>answers[key]\<close>. The loop has set all five keys when it ends, so the lookup finds
  the key (lemma \<open>ask_questions_keys\<close> below).\<close>

definition answer :: "(string \<rightharpoonup> string) \<Rightarrow> string \<Rightarrow> string" where
  "answer answers key = the (answers key)"

definition new_solo :: "user_id \<Rightarrow> (string \<rightharpoonup> string) \<Rightarrow> solo" where
  "new_solo user answers =
     \<lparr>discord_id = user,
      real_name = answer answers ''real_name'',
      ign = answer answers ''ign'',
      current_rank = answer answers ''current_rank'',
      peak_rank = answer answers ''peak_rank'',
      paid = False,
      payment_proof = answer answers ''payment_proof'',
      payment_msg = None,
      payment_txn = None\<rparr>"

definition solo_payment :: "user_id \<Rightarrow> msg_ref \<Rightarrow> payment" where
  "solo_payment user ref =
     \<lparr>p_type = ''solo'', p_user_id = Some user, p_team_code = None,
      p_channel_id = channel_id ref, p_message_id = message_id ref, status = ''pending''\<rparr>"

text \<open>
  \<^verbatim>\<open>handle_solo_registration(user, dm_channel, guild)\<close>. The argument \<open>s\<close> is what
  \<^verbatim>\<open>load_data\<close> returns after the last answer; \<open>post\<close> is \<open>None\<close> when \<^verbatim>\<open>target_guild\<close>
  is \<^verbatim>\<open>None\<close>, else the reference of the embed posted.
\<close>

definition handle_solo_registration ::
  "user_id \<Rightarrow> event list \<Rightarrow> msg_ref option \<Rightarrow> store \<Rightarrow> action list" where
  "handle_solo_registration user evs post s =
     (case ask_questions questions evs Map.empty of
        (acts, None) \<Rightarrow> acts
      | (acts, Some answers) \<Rightarrow>
          (let data = s\<lparr>solos := (solos s)(user \<mapsto> new_solo user answers)\<rparr> in
           case post of
             None \<Rightarrow> acts @ [Send SavedNoGuild, SaveData data]
           | Some ref \<Rightarrow>
               acts @
               [PostEmbed ''New Solo Registration'' ref,
                SaveData (data\<lparr>solos := (solos data)(user \<mapsto> (new_solo user answers)\<lparr>payment_msg := Some ref\<rparr>),
                               payments := (payments data)(SoloKey user \<mapsto> solo_payment user ref)\<rparr>),
                Send SoloThanks,
                Announce NewSoloReceived]))"


section \<open>The team creation flow\<close>

definition captain_entry :: "user_id \<Rightarrow> member" where
  "captain_entry user =
     \<lparr>m_discord_id = user, m_ign = None, m_paid = False,
      m_payment_proof = None, m_payment_msg = None, m_payment_txn = None\<rparr>"

definition new_team :: "string \<Rightarrow> user_id \<Rightarrow> team" where
  "new_team name user =
     \<lparr>team_name = name, captain_id = user, members = [captain_entry user],
      confirmed = False, admin_msg = None\<rparr>"

definition team_created_payment :: "string \<Rightarrow> msg_ref \<Rightarrow> payment" where
  "team_created_payment code ref =
     \<lparr>p_type = ''team_created'', p_user_id = None, p_team_code = Some code,
      p_channel_id = channel_id ref, p_message_id = message_id ref,
      status = ''awaiting_members''\<rparr>"

text \<open>
  \<^verbatim>\<open>handle_team_registration(user, dm_channel, guild)\<close>. The assignment
  \<^verbatim>\<open>data["teams"][code] = {...}\<close> is \<open>AList.update\<close>: it replaces the value of a key
  that is present and appends a new key at the end. The first \<^verbatim>\<open>save_data\<close> comes
  before the embed is posted, the second after \<^verbatim>\<open>admin_msg\<close> and the payments entry
  have been set. The result is \<open>None\<close> when the allocation loop never ends.
\<close>

definition handle_team_registration ::
  "user_id \<Rightarrow> event list \<Rightarrow> rng \<Rightarrow> msg_ref option \<Rightarrow> store \<Rightarrow> action list option" where
  "handle_team_registration user evs rnd post s =
     (case evs of
        [] \<Rightarrow> Some [Send AskTeamName, WaitFor 300, Send TimedOutRegister]
      | Timeout # _ \<Rightarrow> Some [Send AskTeamName, WaitFor 300, Send TimedOutRegister]
      | Reply content # _ \<Rightarrow>
          if lower (strip content) = ''cancel''
          then Some [Send AskTeamName, WaitFor 300, Send RegistrationCancelled]
          else
            (case allocate rnd (map fst (teams s)) of
               None \<Rightarrow> None
             | Some code \<Rightarrow>
                 (let data = s\<lparr>teams := AList.update code (new_team (strip content) user) (teams s)\<rparr> in
                  case post of
                    None \<Rightarrow>
                      Some [Send AskTeamName, WaitFor 300, SaveData data,
                            Send (TeamCreated (strip content) code)]
                  | Some ref \<Rightarrow>
                      Some [Send AskTeamName, WaitFor 300, SaveData data,
                            Send (TeamCreated (strip content) code),
                            PostEmbed ''New Team Created'' ref,
                            SaveData (data\<lparr>teams := AList.map_entry code (\<lambda>t. t\<lparr>admin_msg := Some ref\<rparr>) (teams data),
                                           payments := (payments data)(TeamCreatedKey code \<mapsto> team_created_payment code ref)\<rparr>)])))"

section \<open>The registration command\<close>

text \<open>
  \<^verbatim>\<open>register_cmd\<close>: \<open>dm_ok\<close> is false when opening the direct channel raises
  \<^verbatim>\<open>discord.Forbidden\<close>. The first wait is the choice between solo and team.
\<close>

definition register_cmd ::
  "bool \<Rightarrow> user_id \<Rightarrow> event list \<Rightarrow> rng \<Rightarrow> msg_ref option \<Rightarrow> store \<Rightarrow> action list option" where
  "register_cmd dm_ok user evs rnd post s =
     (if \<not> dm_ok then Some [Send CouldNotDM]
      else
        (case evs of
           [] \<Rightarrow> Some [Send Welcome, WaitFor 300, Send TimedOutRegister]
         | Timeout # _ \<Rightarrow> Some [Send Welcome, WaitFor 300, Send TimedOutRegister]
         | Reply content # rest \<Rightarrow>
             if lower (strip content) = ''solo''
             then Some ([Send Welcome, WaitFor 300, Send ChoseSolo] @ handle_solo_registration user rest post s)
             else if lower (strip content) = ''team''
             then map_option (\<lambda>acts. [Send Welcome, WaitFor 300, Send ChoseTeam] @ acts)
                    (handle_team_registration user rest rnd post s)
             else Some [Send Welcome, WaitFor 300, Send Unrecognized]))"

section \<open>The join flow\<close>

definition member_entry :: "user_id \<Rightarrow> string \<Rightarrow> string \<Rightarrow> member" where
  "member_entry user ign_text proof =
     \<lparr>m_discord_id = user, m_ign = Some ign_text, m_paid = False,
      m_payment_proof = Some proof, m_payment_msg = None, m_payment_txn = None\<rparr>"

definition team_member_payment :: "string \<Rightarrow> user_id \<Rightarrow> msg_ref \<Rightarrow> payment" where
  "team_member_payment code user ref =
     \<lparr>p_type = ''team_member'', p_user_id = Some user, p_team_code = Some code,
      p_channel_id = channel_id ref, p_message_id = message_id ref, status = ''pending''\<rparr>"

text \<open>
  \<^verbatim>\<open>
  for m in data["teams"][code]["members"]:
      if m["discord_id"] == ctx.author.id:
          m["payment_msg"] = {...}; m["payment_proof"] = payment_proof
          break
  \<close>
\<close>

fun attach_payment :: "user_id \<Rightarrow> msg_ref \<Rightarrow> string \<Rightarrow> member list \<Rightarrow> member list" where
  "attach_payment user ref proof [] = []"
| "attach_payment user ref proof (m # ms) =
     (if m_discord_id m = user
      then m\<lparr>m_payment_msg := Some ref, m_payment_proof := Some proof\<rparr> # ms
      else m # attach_payment user ref proof ms)"

text \<open>The member loop \<^verbatim>\<open>for m in team["members"]: if m["discord_id"] == id\<close> finds a member.\<close>

definition has_member :: "user_id \<Rightarrow> team \<Rightarrow> bool" where
  "has_member user t = (user \<in> set (map m_discord_id (members t)))"

text \<open>
  The checks of \<^verbatim>\<open>jointeam_cmd\<close> before its first question. \<open>Inl\<close> is the reply that
  ends the command; \<open>Inr\<close> is the code, stripped and in upper case, and its team.
  \<^verbatim>\<open>if not code\<close> holds for a missing argument and for an empty one.
\<close>

definition jointeam_checks ::
  "bool \<Rightarrow> user_id \<Rightarrow> string option \<Rightarrow> store \<Rightarrow> msg + (string \<times> team)" where
  "jointeam_checks in_dm user arg s =
     (if \<not> in_dm then Inl UseDM
      else
        (case arg of
           None \<Rightarrow> Inl Usage
         | Some raw \<Rightarrow>
             if raw = [] then Inl Usage
             else
               (case map_of (teams s) (upper (strip raw)) of
                  None \<Rightarrow> Inl InvalidCode
                | Some t \<Rightarrow>
                    if has_member user t then Inl AlreadyMember
                    else if length (members t) \<ge> 5 then Inl TeamFull
                    else Inr (upper (strip raw), t))))"

text \<open>
  What \<^verbatim>\<open>jointeam_cmd\<close> does once both answers are in: it appends the member to the
  document it loaded before the questions and saves; it posts the embed; it loads the
  document again, attaches the reference to the first member with the user's id, adds
  the payments entry and saves again; it edits the team notice when the team has one.
\<close>

definition join_complete ::
  "user_id \<Rightarrow> string \<Rightarrow> string \<Rightarrow> string \<Rightarrow> msg_ref option \<Rightarrow> store \<Rightarrow> action list" where
  "join_complete user code ign_text proof post s =
     (let data = s\<lparr>teams := AList.map_entry code
                     (\<lambda>t. t\<lparr>members := members t @ [member_entry user ign_text proof]\<rparr>) (teams s)\<rparr> in
      case post of
        None \<Rightarrow> [SaveData data, Send NoGuildJoin]
      | Some ref \<Rightarrow>
          (let data2 = data\<lparr>teams := AList.map_entry code
                              (\<lambda>t. t\<lparr>members := attach_payment user ref proof (members t)\<rparr>) (teams data),
                            payments := (payments data)(TeamMemberKey code user \<mapsto> team_member_payment code user ref)\<rparr> in
           [SaveData data, PostEmbed ''Team Member Payment (Pending)'' ref, SaveData data2, Send JoinThanks] @
           (case map_of (teams data2) code of
              None \<Rightarrow> []
            | Some t \<Rightarrow>
                (case admin_msg t of
                   None \<Rightarrow> []
                 | Some a \<Rightarrow> [EditEmbed (channel_id a) (message_id a) None]))))"

text \<open>
  \<^verbatim>\<open>jointeam_cmd(ctx, code)\<close>. The wait for the IGN has \<^verbatim>\<open>timeout=300\<close> and a test for
  \<^verbatim>\<open>cancel\<close>; the wait for the payment proof has \<^verbatim>\<open>timeout=600\<close> and no such test.
\<close>

definition jointeam_cmd ::
  "bool \<Rightarrow> user_id \<Rightarrow> string option \<Rightarrow> event list \<Rightarrow> msg_ref option \<Rightarrow> store \<Rightarrow> action list" where
  "jointeam_cmd in_dm user arg evs post s =
     (case jointeam_checks in_dm user arg s of
        Inl err \<Rightarrow> [Send err]
      | Inr (code, t) \<Rightarrow>
          (case evs of
             [] \<Rightarrow> [Send (AskIGN (team_name t)), WaitFor 300, Send TimedOutJoin]
           | Timeout # _ \<Rightarrow> [Send (AskIGN (team_name t)), WaitFor 300, Send TimedOutJoin]
           | Reply c1 # rest \<Rightarrow>
               if lower (strip c1) = ''cancel''
               then [Send (AskIGN (team_name t)), WaitFor 300, Send JoinCancelled]
               else
                 (case rest of
                    [] \<Rightarrow> [Send (AskIGN (team_name t)), WaitFor 300, Send AskPayment, WaitFor 600,
                           Send TimedOutJoin]
                  | Timeout # _ \<Rightarrow>
                          [Send (AskIGN (team_name t)), WaitFor 300, Send AskPayment, WaitFor 600,
                           Send TimedOutJoin]
                  | Reply c2 # _ \<Rightarrow>
                      [Send (AskIGN (team_name t)), WaitFor 300, Send AskPayment, WaitFor 600] @
                      join_complete user code (strip c1) (strip c2) post s)))"


section \<open>Verification and rejection\<close>

text \<open>\<^verbatim>\<open>txn_ref or "verified-by-admin"\<close>: the default replaces \<^verbatim>\<open>None\<close> and the empty text.\<close>

definition txn_or_default :: "string option \<Rightarrow> string" where
  "txn_or_default txn_ref =
     (case txn_ref of
        None \<Rightarrow> ''verified-by-admin''
      | Some t \<Rightarrow> if t = [] then ''verified-by-admin'' else t)"

text \<open>The outer loop \<^verbatim>\<open>for code, team in data["teams"].items()\<close> with the member loop
  inside it stops at the first team, in the order of the dictionary, that has a member
  with the id.\<close>

fun find_team :: "user_id \<Rightarrow> (string \<times> team) list \<Rightarrow> (string \<times> team) option" where
  "find_team user [] = None"
| "find_team user ((code, t) # rest) =
     (if has_member user t then Some (code, t) else find_team user rest)"

text \<open>The loops mutate that team where it stands and leave the dictionary otherwise as
  it is.\<close>

fun update_first_team ::
  "user_id \<Rightarrow> (team \<Rightarrow> team) \<Rightarrow> (string \<times> team) list \<Rightarrow> (string \<times> team) list" where
  "update_first_team user f [] = []"
| "update_first_team user f ((code, t) # rest) =
     (if has_member user t then (code, f t) # rest
      else (code, t) # update_first_team user f rest)"

text \<open>\<^verbatim>\<open>m["paid"] = True; m["payment_txn"] = txn_ref or "verified-by-admin"\<close> on the first
  member with the id.\<close>

fun mark_paid :: "user_id \<Rightarrow> string \<Rightarrow> member list \<Rightarrow> member list" where
  "mark_paid user txn [] = []"
| "mark_paid user txn (m # ms) =
     (if m_discord_id m = user then m\<lparr>m_paid := True, m_payment_txn := Some txn\<rparr> # ms
      else m # mark_paid user txn ms)"

text \<open>\<^verbatim>\<open>len(team["members"]) == 5 and all(mbr.get("paid", False) for mbr in team["members"])\<close>\<close>

definition is_complete :: "team \<Rightarrow> bool" where
  "is_complete t = (length (members t) = 5 \<and> list_all m_paid (members t))"

text \<open>What \<^verbatim>\<open>verify_cmd\<close> does to the team it has found.\<close>

definition paid_team :: "user_id \<Rightarrow> string \<Rightarrow> team \<Rightarrow> team" where
  "paid_team user txn t = t\<lparr>members := mark_paid user txn (members t)\<rparr>"

definition verify_team :: "user_id \<Rightarrow> string \<Rightarrow> team \<Rightarrow> team" where
  "verify_team user txn t =
     (if is_complete (paid_team user txn t) then (paid_team user txn t)\<lparr>confirmed := True\<rparr>
      else paid_team user txn t)"

text \<open>
  \<^verbatim>\<open>verify_cmd(ctx, member, txn_ref)\<close>: the solo record first, the teams otherwise. The
  titles are those of the source without their leading symbol.
\<close>

definition verify_cmd :: "user_id \<Rightarrow> string option \<Rightarrow> store \<Rightarrow> action list" where
  "verify_cmd user txn_ref s =
     (case solos s user of
        Some r \<Rightarrow>
          (let data = s\<lparr>solos := (solos s)(user \<mapsto> r\<lparr>paid := True, payment_txn := Some (txn_or_default txn_ref)\<rparr>)\<rparr> in
           case payments s (SoloKey user) of
             None \<Rightarrow>
               [AddRole user ROLE_PARTICIPANT, SaveData data, Send MarkedSolo,
                Notify user PaymentVerified]
           | Some p \<Rightarrow>
               [EditEmbed (p_channel_id p) (p_message_id p) (Some ''Solo Payment Verified''),
                AddRole user ROLE_PARTICIPANT,
                SaveData (data\<lparr>payments := (payments s)(SoloKey user \<mapsto> p\<lparr>status := ''verified''\<rparr>)\<rparr>),
                Send MarkedSolo, Notify user PaymentVerified])
      | None \<Rightarrow>
          (case find_team user (teams s) of
             None \<Rightarrow> [Send NotFoundVerify]
           | Some (code, t) \<Rightarrow>
               (let data = s\<lparr>teams := update_first_team user (verify_team user (txn_or_default txn_ref)) (teams s)\<rparr>;
                    tail = [AddRole user ROLE_PARTICIPANT, Send (MarkedTeam (team_name t)),
                            Notify user PaymentVerified] @
                           (if is_complete (paid_team user (txn_or_default txn_ref) t)
                            then [Announce (TeamConfirmed code), AddRole (captain_id t) ROLE_CAPTAIN]
                            else [])
                in
                case payments s (TeamMemberKey code user) of
                  None \<Rightarrow> tail @ [SaveData data]
                | Some p \<Rightarrow>
                    EditEmbed (p_channel_id p) (p_message_id p) (Some ''Team Member Payment Verified'') #
                    tail @
                    [SaveData (data\<lparr>payments := (payments s)(TeamMemberKey code user \<mapsto> p\<lparr>status := ''verified''\<rparr>)\<rparr>)])))"

text \<open>
  \<^verbatim>\<open>reject_cmd(ctx, member, reason)\<close>: it changes the payments entry and the embed only;
  the solo record and the teams stay as they are.
\<close>

definition reject_cmd :: "user_id \<Rightarrow> string \<Rightarrow> store \<Rightarrow> action list" where
  "reject_cmd user reason s =
     (case solos s user of
        Some r \<Rightarrow>
          (case payments s (SoloKey user) of
             None \<Rightarrow> [SaveData s, Notify user (PaymentRejected reason), Send RejectedSolo]
           | Some p \<Rightarrow>
               [EditEmbed (p_channel_id p) (p_message_id p) (Some ''Solo Payment Rejected''),
                SaveData (s\<lparr>payments := (payments s)(SoloKey user \<mapsto> p\<lparr>status := ''rejected''\<rparr>)\<rparr>),
                Notify user (PaymentRejected reason), Send RejectedSolo])
      | None \<Rightarrow>
          (case find_team user (teams s) of
             None \<Rightarrow> [Send NotFoundReject]
           | Some (code, t) \<Rightarrow>
               (case payments s (TeamMemberKey code user) of
                  None \<Rightarrow>
                    [Notify user (PaymentRejected reason), Send (RejectedTeam (team_name t)), SaveData s]
                | Some p \<Rightarrow>
                    [EditEmbed (p_channel_id p) (p_message_id p) (Some ''Team Member Payment Rejected''),
                     Notify user (PaymentRejected reason), Send (RejectedTeam (team_name t)),
                     SaveData (s\<lparr>payments := (payments s)(TeamMemberKey code user \<mapsto> p\<lparr>status := ''rejected''\<rparr>)\<rparr>)])))"

section \<open>Posting and editing a notice\<close>

text \<open>An embed is its title and its fields; the footer is the same text on every embed.\<close>

record embed =
  e_title :: string
  e_fields :: "(string \<times> string) list"


datatype discord_op =
  MessageEdit nat nat embed      \<comment> \<open>\<^verbatim>\<open>msg.edit(embed=embed)\<close> on the channel and message given\<close>
  | ChannelSend nat embed        \<comment> \<open>\<^verbatim>\<open>ch.send(embed=embed)\<close>: a new message in the channel\<close>

text \<open>\<^verbatim>\<open>post_payment_embed\<close> sends one new message to the channel \<open>ch\<close> it has chosen and
  returns the ids; \<open>new_id\<close> is the id Discord gives the message.\<close>

definition post_payment_embed ::
  "nat \<Rightarrow> nat \<Rightarrow> string \<Rightarrow> (string \<times> string) list \<Rightarrow> discord_op list \<times> msg_ref" where
  "post_payment_embed ch new_id new_title new_fields =
     ([ChannelSend ch \<lparr>e_title = new_title, e_fields = new_fields\<rparr>],
      \<lparr>channel_id = ch, message_id = new_id\<rparr>)"


section \<open>Runs of the bot\<close>

text \<open>
  One step of the store: some handler, started on the document \<open>s\<close>, writes the
  document \<open>d\<close>. Every \<^verbatim>\<open>save_data\<close> of a handler is a step, the one in the middle of a
  handler too. A store is reachable when steps lead to it from the empty document that
  \<^verbatim>\<open>load_data\<close> creates when there is no file.
\<close>

inductive step :: "store \<Rightarrow> store \<Rightarrow> bool" where
  solo: "d \<in> set (writes (handle_solo_registration user evs post s)) \<Longrightarrow> step s d"
| team: "handle_team_registration user evs rnd post s = Some acts \<Longrightarrow> d \<in> set (writes acts) \<Longrightarrow> step s d"
| join: "d \<in> set (writes (jointeam_cmd in_dm user arg evs post s)) \<Longrightarrow> step s d"
| verify: "d \<in> set (writes (verify_cmd user txn_ref s)) \<Longrightarrow> step s d"
| reject: "d \<in> set (writes (reject_cmd user reason s)) \<Longrightarrow> step s d"

definition reachable :: "store \<Rightarrow> bool" where
  "reachable s = step\<^sup>*\<^sup>* empty_store s"


section \<open>Invariants of the store\<close>

text \<open>The keys of the teams are pairwise different join codes of six characters of the
  alphabet.\<close>

definition codes_ok :: "store \<Rightarrow> bool" where
  "codes_ok s =
     (distinct (map fst (teams s)) \<and>
      list_all (\<lambda>c. length c = 6 \<and> set c \<subseteq> set alphabet) (map fst (teams s)))"


text \<open>The status values an entry of the payments index can have, by the format of its
  key: the entry of a team creation is written with \<^verbatim>\<open>"awaiting_members"\<close>, the entries
  of a solo registration and of a team member with \<^verbatim>\<open>"pending"\<close>, which \<^verbatim>\<open>verify_cmd\<close> and
  \<^verbatim>\<open>reject_cmd\<close> replace.\<close>

fun key_statuses :: "pay_key \<Rightarrow> string list" where
  "key_statuses (TeamCreatedKey c) = [''awaiting_members'']"
| "key_statuses (SoloKey u) = [''pending'', ''verified'', ''rejected'']"
| "key_statuses (TeamMemberKey c u) = [''pending'', ''verified'', ''rejected'']"

definition pay_ok :: "store \<Rightarrow> bool" where
  "pay_ok s = (\<forall>k p. payments s k = Some p \<longrightarrow> status p \<in> set (key_statuses k))"


section \<open>The conditions of the specification\<close>

text \<open>The condition under which the specification lets an identity join: the code
  denotes an existing team with fewer than five members of which the identity is not
  already a member.\<close>

definition joinable :: "store \<Rightarrow> user_id \<Rightarrow> string \<Rightarrow> bool" where
  "joinable s user code =
     (case map_of (teams s) code of
        None \<Rightarrow> False
      | Some t \<Rightarrow> length (members t) < 5 \<and> user \<notin> set (map m_discord_id (members t)))"

text \<open>The validation error that matches the condition that fails.\<close>

definition join_error :: "store \<Rightarrow> user_id \<Rightarrow> string \<Rightarrow> msg" where
  "join_error s user code =
     (case map_of (teams s) code of
        None \<Rightarrow> InvalidCode
      | Some t \<Rightarrow> if user \<in> set (map m_discord_id (members t)) then AlreadyMember else TeamFull)"

text \<open>The entry of an identity in a member list: the first with that id, as the member
  loops find it.\<close>

definition find_member :: "user_id \<Rightarrow> member list \<Rightarrow> member option" where
  "find_member user ms = find (\<lambda>m. m_discord_id m = user) ms"

text \<open>The next wait gets no reply: it times out.\<close>

definition no_reply :: "event list \<Rightarrow> bool" where
  "no_reply evs = (case evs of [] \<Rightarrow> True | Timeout # _ \<Rightarrow> True | Reply _ # _ \<Rightarrow> False)"

text \<open>The notices a run publishes and the notices it edits.\<close>

fun posts :: "action list \<Rightarrow> msg_ref list" where
  "posts [] = []"
| "posts (PostEmbed t r # as) = r # posts as"
| "posts (a # as) = posts as"

fun edits :: "action list \<Rightarrow> (nat \<times> nat) list" where
  "edits [] = []"
| "edits (EditEmbed c m t # as) = (c, m) # edits as"
| "edits (a # as) = edits as"

section \<open>Stores of example runs\<close>

text \<open>The store after user 1 has created the team Foxes in the empty store, with a random
  source that draws 0, 1, 2, ... (the code is \<open>ABCDEF\<close>) and no guild to post in; and the
  store after user 2 has then created the team Owls with the same random source: the
  first code drawn is taken, the second is \<open>GHIJKL\<close>.\<close>

definition store_foxes :: store where
  "store_foxes =
     \<lparr>solos = Map.empty, teams = [(''ABCDEF'', new_team ''Foxes'' 1)], payments = Map.empty\<rparr>"

definition store_foxes_owls :: store where
  "store_foxes_owls =
     \<lparr>solos = Map.empty,
      teams = [(''ABCDEF'', new_team ''Foxes'' 1), (''GHIJKL'', new_team ''Owls'' 2)],
      payments = Map.empty\<rparr>"

text \<open>The store after user 1, the captain of Foxes, has also joined Owls (no guild to
  post in): the identity is a member of both teams.\<close>

definition store_both :: store where
  "store_both =
     \<lparr>solos = Map.empty,
      teams = [(''ABCDEF'', new_team ''Foxes'' 1),
               (''GHIJKL'', (new_team ''Owls'' 2)\<lparr>members := [captain_entry 2, member_entry 1 ''Ace'' ''TXN9'']\<rparr>)],
      payments = Map.empty\<rparr>"

text \<open>The references of two notices in channel 10.\<close>

definition notice_a :: msg_ref where
  "notice_a = \<lparr>channel_id = 10, message_id = 20\<rparr>"

definition notice_b :: msg_ref where
  "notice_b = \<lparr>channel_id = 10, message_id = 21\<rparr>"

text \<open>The store after user 1 has created the team Foxes in the empty store when there is a
  guild: the notice of the team is \<open>notice_a\<close>.\<close>

definition store_foxes_posted :: store where
  "store_foxes_posted =
     \<lparr>solos = Map.empty,
      teams = [(''ABCDEF'', (new_team ''Foxes'' 1)\<lparr>admin_msg := Some notice_a\<rparr>)],
      payments = [TeamCreatedKey ''ABCDEF'' \<mapsto> team_created_payment ''ABCDEF'' notice_a]\<rparr>"

text \<open>The store after user 7 has registered solo in the empty store with the answers
  Alice Smith, AliceIGN, Gold II, Immortal I and TXN123, the notice being \<open>notice_a\<close>.\<close>

definition alice :: solo where
  "alice =
     \<lparr>discord_id = 7, real_name = ''Alice Smith'', ign = ''AliceIGN'',
      current_rank = ''Gold II'', peak_rank = ''Immortal I'', paid = False,
      payment_proof = ''TXN123'', payment_msg = Some notice_a, payment_txn = None\<rparr>"

definition store_alice :: store where
  "store_alice =
     \<lparr>solos = [7 \<mapsto> alice], teams = [], payments = [SoloKey 7 \<mapsto> solo_payment 7 notice_a]\<rparr>"





section \<open>Join codes are six alphanumeric characters and fresh\<close>

lemmas text_defs = lower_def upper_def strip_def is_space_def lower_char_def upper_char_def
  upper_letters_def lower_letters_def

lemma make_join_code_length: "length (make_join_code rnd) = 6"
  by (simp add: make_join_code_def)

lemma length_alphabet: "length alphabet = 36"
  by (simp add: alphabet_def)

lemma make_join_code_alphabet: "set (make_join_code rnd) \<subseteq> set alphabet"
  by (auto simp: make_join_code_def length_alphabet)

lemma allocate_fresh: "allocate rnd keys = Some c \<Longrightarrow> c \<notin> set keys"
  by (rule allocate.raw_induct[rotated 1, where P = "\<lambda>rnd keys c. c \<notin> set keys"])
     (auto split: if_splits)

lemma allocate_code: "allocate rnd keys = Some c \<Longrightarrow> length c = 6 \<and> set c \<subseteq> set alphabet"
  by (rule allocate.raw_induct[rotated 1, where P = "\<lambda>rnd keys c. length c = 6 \<and> set c \<subseteq> set alphabet"])
     (auto split: if_splits simp: make_join_code_length dest: subsetD[OF make_join_code_alphabet])

text \<open>The loop ends as soon as some attempt draws a code that is not a key.\<close>

lemma allocate_returns:
  "make_join_code (\<lambda>k. rnd (k + 6 * n)) \<notin> set keys \<Longrightarrow> \<exists>c. allocate rnd keys = Some c"
proof (induction n arbitrary: rnd)
  case 0
  then show ?case by (subst allocate.simps) simp
next
  case (Suc n)
  have "(\<lambda>k. rnd (k + 6 * Suc n)) = (\<lambda>k. rnd (k + 6 * n + 6))"
    by (simp add: add.commute add.left_commute)
  with Suc.prems have "make_join_code (\<lambda>k. rnd (k + 6 * n + 6)) \<notin> set keys"
    by simp
  then have "\<exists>c. allocate (\<lambda>k. rnd (k + 6)) keys = Some c"
    by (intro Suc.IH)
  then show ?case by (subst allocate.simps) auto
qed

subsection \<open>What each handler does to the keys of the teams\<close>

lemma map_fst_map_entry: "map fst (AList.map_entry k f xs) = map fst xs"
  by (induction xs) auto

lemma map_fst_update_first_team: "map fst (update_first_team u f ts) = map fst ts"
  by (induction u f ts rule: update_first_team.induct) auto

lemma map_fst_update_fresh:
  "k \<notin> set (map fst xs) \<Longrightarrow> map fst (AList.update k v xs) = map fst xs @ [k]"
  by (induction xs) auto

lemma ask_questions_writes: "writes (fst (ask_questions qs evs a)) = []"
proof (induction qs arbitrary: evs a)
  case Nil
  show ?case by simp
next
  case (Cons k qs)
  show ?case
  proof (cases evs)
    case Nil
    then show ?thesis by simp
  next
    case (Cons e es)
    then show ?thesis using Cons.IH by (cases e) (simp_all add: case_prod_unfold)
  qed
qed

lemma writes_append: "writes (xs @ ys) = writes xs @ writes ys"
  by (induction xs rule: writes.induct) auto

lemma solo_keys:
  "d \<in> set (writes (handle_solo_registration user evs post s)) \<Longrightarrow> teams d = teams s"
  using ask_questions_writes[of questions evs Map.empty]
  by (auto simp: handle_solo_registration_def Let_def writes_append split: prod.splits option.splits)

lemma team_keys:
  assumes "handle_team_registration user evs rnd post s = Some acts" "d \<in> set (writes acts)"
  shows "\<exists>c. allocate rnd (map fst (teams s)) = Some c \<and> map fst (teams d) = map fst (teams s) @ [c]"
proof -
  from assms obtain c where c: "allocate rnd (map fst (teams s)) = Some c"
    by (auto simp: handle_team_registration_def split: list.splits event.splits if_splits option.splits)
  have fresh: "c \<notin> set (map fst (teams s))"
    using allocate_fresh[OF c] .
  have "map fst (teams d) = map fst (teams s) @ [c]"
    using assms c map_fst_update_fresh[OF fresh]
    by (auto simp: handle_team_registration_def Let_def map_fst_map_entry
        split: list.splits event.splits if_splits option.splits)
  with c show ?thesis by blast
qed

lemma join_keys:
  "d \<in> set (writes (jointeam_cmd in_dm user arg evs post s)) \<Longrightarrow> map fst (teams d) = map fst (teams s)"
  by (auto simp: jointeam_cmd_def join_complete_def Let_def writes_append map_fst_map_entry
      split: sum.splits list.splits event.splits if_splits option.splits prod.splits)

lemma verify_keys:
  "d \<in> set (writes (verify_cmd user txn s)) \<Longrightarrow> map fst (teams d) = map fst (teams s)"
  by (auto simp: verify_cmd_def Let_def writes_append map_fst_update_first_team
      split: option.splits prod.splits if_splits)

lemma reject_keys:
  "d \<in> set (writes (reject_cmd user reason s)) \<Longrightarrow> teams d = teams s"
  by (auto simp: reject_cmd_def split: option.splits prod.splits)

lemma step_codes_ok: "step s d \<Longrightarrow> codes_ok s \<Longrightarrow> codes_ok d"
proof (induction rule: step.induct)
  case (solo d user evs post s)
  then show ?case using solo_keys[of d user evs post s] by (simp add: codes_ok_def)
next
  case (team user evs rnd post s acts d)
  then obtain c where c: "allocate rnd (map fst (teams s)) = Some c"
     "map fst (teams d) = map fst (teams s) @ [c]" using team_keys by blast
  then show ?case using team.prems allocate_fresh[OF c(1)] allocate_code[OF c(1)]
    by (simp add: codes_ok_def)
next
  case (join d in_dm user arg evs post s)
  then show ?case using join_keys[of d in_dm user arg evs post s] by (simp add: codes_ok_def)
next
  case (verify d user txn_ref s)
  then show ?case using verify_keys[of d user txn_ref s] by (simp add: codes_ok_def)
next
  case (reject d user reason s)
  then show ?case using reject_keys[of d user reason s] by (simp add: codes_ok_def)
qed

lemma reachable_codes_ok: "reachable s \<Longrightarrow> codes_ok s"
  unfolding reachable_def
proof (induction rule: rtranclp_induct)
  case base
  show ?case by (simp add: codes_ok_def empty_store_def)
next
  case (step y z)
  then show ?case using step_codes_ok by blast
qed

lemma reachable_empty: "reachable empty_store"
  by (simp add: reachable_def)

lemma reachable_step: "reachable s \<Longrightarrow> step s d \<Longrightarrow> reachable d"
  by (simp add: reachable_def)

subsection \<open>Two team creations\<close>

lemma make_join_code_0: "make_join_code (\<lambda>k. k) = ''ABCDEF''"
  by (simp add: make_join_code_def alphabet_def upt_rec)

lemma make_join_code_6: "make_join_code (\<lambda>k. k + 6) = ''GHIJKL''"
  by (simp add: make_join_code_def alphabet_def upt_rec)

lemma create_foxes:
  "handle_team_registration 1 [Reply ''Foxes''] (\<lambda>k. k) None empty_store =
     Some [Send AskTeamName, WaitFor 300, SaveData store_foxes,
           Send (TeamCreated ''Foxes'' ''ABCDEF'')]"
  by (simp add: handle_team_registration_def text_defs empty_store_def allocate.simps
      make_join_code_0 store_foxes_def)

lemma create_owls:
  "handle_team_registration 2 [Reply ''Owls''] (\<lambda>k. k) None store_foxes =
     Some [Send AskTeamName, WaitFor 300, SaveData store_foxes_owls,
           Send (TeamCreated ''Owls'' ''GHIJKL'')]"
  by (simp add: handle_team_registration_def text_defs allocate.simps
      make_join_code_0 make_join_code_6 store_foxes_def store_foxes_owls_def)

lemma reachable_foxes: "reachable store_foxes"
  using reachable_step[OF reachable_empty step.team[OF create_foxes]] by simp

text \<open>
  Claim C8. Every code that \<^verbatim>\<open>make_join_code\<close> produces has exactly six characters, all
  of them from the alphabet of upper-case letters and digits. When a team creation
  that starts in a reachable store writes a document, the allocation loop has returned
  a code of that form that was not a key of the teams when the store was loaded, the
  keys of the document written are the old keys followed by the new code, and they are
  pairwise different.
\<close>

theorem join_codes_six_alphanumeric_and_fresh:
  assumes "reachable s"
    and "handle_team_registration user evs rnd post s = Some acts"
    and "d \<in> set (writes acts)"
  shows "length (make_join_code rnd') = 6 \<and> set (make_join_code rnd') \<subseteq> set alphabet \<and>
         (\<exists>code. allocate rnd (map fst (teams s)) = Some code \<and>
                 length code = 6 \<and> set code \<subseteq> set alphabet \<and>
                 code \<notin> set (map fst (teams s)) \<and>
                 map fst (teams d) = map fst (teams s) @ [code]) \<and>
         distinct (map fst (teams d))"
proof -
  obtain c where c: "allocate rnd (map fst (teams s)) = Some c"
    "map fst (teams d) = map fst (teams s) @ [c]"
    using team_keys[OF assms(2,3)] by blast
  have "step s d"
    using assms(2,3) by (rule step.team)
  then have "codes_ok d"
    using assms(1) reachable_codes_ok reachable_step by blast
  then have "distinct (map fst (teams d))"
    by (simp add: codes_ok_def)
  then show ?thesis
    using c allocate_fresh[OF c(1)] allocate_code[OF c(1)]
      make_join_code_length make_join_code_alphabet
    by blast
qed

theorem join_codes_six_alphanumeric_and_fresh_witness:
  "length (make_join_code (\<lambda>k. k)) = 6 \<and> set (make_join_code (\<lambda>k. k)) \<subseteq> set alphabet \<and>
   (\<exists>code. allocate (\<lambda>k. k) (map fst (teams store_foxes)) = Some code \<and>
           length code = 6 \<and> set code \<subseteq> set alphabet \<and>
           code \<notin> set (map fst (teams store_foxes)) \<and>
           map fst (teams store_foxes_owls) = map fst (teams store_foxes) @ [code]) \<and>
   distinct (map fst (teams store_foxes_owls))"
proof -
  have m: "store_foxes_owls \<in> set (writes [Send AskTeamName, WaitFor 300,
      SaveData store_foxes_owls, Send (TeamCreated ''Owls'' ''GHIJKL'')])"
    by simp
  show ?thesis
    by (rule join_codes_six_alphanumeric_and_fresh[OF reachable_foxes create_owls m])
qed

section \<open>The checks of the join command\<close>

lemma jointeam_checks_joinable:
  "raw \<noteq> [] \<Longrightarrow>
   jointeam_checks True user (Some raw) s =
     (if joinable s user (upper (strip raw))
      then Inr (upper (strip raw), the (map_of (teams s) (upper (strip raw))))
      else Inl (join_error s user (upper (strip raw))))"
  by (auto simp: jointeam_checks_def joinable_def join_error_def has_member_def split: option.splits)

lemma jointeam_rejected:
  "raw \<noteq> [] \<Longrightarrow> \<not> joinable s user (upper (strip raw)) \<Longrightarrow>
   jointeam_cmd True user (Some raw) evs post s = [Send (join_error s user (upper (strip raw)))]"
  by (simp add: jointeam_cmd_def jointeam_checks_joinable)

text \<open>Outside a direct channel, and without a code, the command ends with its usage
  notice before it reads the store.\<close>

lemma jointeam_not_in_dm: "jointeam_cmd False user arg evs post s = [Send UseDM]"
  by (simp add: jointeam_cmd_def jointeam_checks_def)

lemma jointeam_no_code:
  "arg = None \<or> arg = Some [] \<Longrightarrow> jointeam_cmd True user arg evs post s = [Send Usage]"
  by (auto simp: jointeam_cmd_def jointeam_checks_def)

lemma map_of_map_entry_same:
  "map_of xs k = Some v \<Longrightarrow> map_of (AList.map_entry k f xs) k = Some (f v)"
  by (induction xs) auto

lemma jointeam_asks:
  assumes "raw \<noteq> []" "map_of (teams s) (upper (strip raw)) = Some t"
    "joinable s user (upper (strip raw))"
  shows "take 2 (jointeam_cmd True user (Some raw) evs post s) =
         [Send (AskIGN (team_name t)), WaitFor 300]"
  using assms
  by (simp add: jointeam_cmd_def jointeam_checks_joinable split: list.splits event.splits)

lemma jointeam_appends:
  assumes "raw \<noteq> []" "map_of (teams s) (upper (strip raw)) = Some t"
    "joinable s user (upper (strip raw))" "lower (strip c1) \<noteq> ''cancel''"
  shows "\<exists>d ds. writes (jointeam_cmd True user (Some raw) (Reply c1 # Reply c2 # rest) post s) = d # ds \<and>
     solos d = solos s \<and> payments d = payments s \<and>
     teams d = AList.map_entry (upper (strip raw))
                 (\<lambda>t. t\<lparr>members := members t @ [member_entry user (strip c1) (strip c2)]\<rparr>) (teams s) \<and>
     map_of (teams d) (upper (strip raw)) =
       Some (t\<lparr>members := members t @ [member_entry user (strip c1) (strip c2)]\<rparr>)"
  using assms
  by (auto simp: jointeam_cmd_def jointeam_checks_joinable join_complete_def Let_def
      map_of_map_entry_same split: option.splits)

text \<open>
  Claim C5. The command is run in a direct channel with a code \<open>raw\<close>; the code it
  looks up is \<open>raw\<close> stripped and in upper case. The checks pass exactly when the
  identity can join the team of that code (the team exists, has fewer than five members
  and the identity is not one of them). When they pass, the command asks its first
  question, whatever comes next, and when both answers arrive (the first is not the
  cancel keyword) the first document it writes is the loaded one with the new member
  appended to that team. When they fail, the whole run is the one matching
  validation error (invalid code, already a member, team full): nothing is asked and
  nothing is written, so the store is as it was.
\<close>

theorem jointeam_succeeds_iff_joinable:
  assumes "raw \<noteq> []"
  shows "(joinable s user (upper (strip raw)) \<longleftrightarrow>
            (\<exists>t. jointeam_checks True user (Some raw) s = Inr (upper (strip raw), t))) \<and>
         (joinable s user (upper (strip raw)) \<longrightarrow>
            (\<exists>t. map_of (teams s) (upper (strip raw)) = Some t \<and>
                 (\<forall>evs post. take 2 (jointeam_cmd True user (Some raw) evs post s) =
                                [Send (AskIGN (team_name t)), WaitFor 300]) \<and>
                 (\<forall>c1 c2 rest post. lower (strip c1) \<noteq> ''cancel'' \<longrightarrow>
                    (\<exists>d ds. writes (jointeam_cmd True user (Some raw) (Reply c1 # Reply c2 # rest) post s) = d # ds \<and>
                            solos d = solos s \<and> payments d = payments s \<and>
                            map_of (teams d) (upper (strip raw)) =
                              Some (t\<lparr>members := members t @ [member_entry user (strip c1) (strip c2)]\<rparr>))))) \<and>
         (\<not> joinable s user (upper (strip raw)) \<longrightarrow>
            (\<forall>evs post.
               jointeam_cmd True user (Some raw) evs post s = [Send (join_error s user (upper (strip raw)))] \<and>
               timeouts (jointeam_cmd True user (Some raw) evs post s) = [] \<and>
               writes (jointeam_cmd True user (Some raw) evs post s) = [] \<and>
               final_store s (jointeam_cmd True user (Some raw) evs post s) = s))"
proof (intro conjI impI allI)
  show "joinable s user (upper (strip raw)) \<longleftrightarrow>
        (\<exists>t. jointeam_checks True user (Some raw) s = Inr (upper (strip raw), t))"
    using assms by (simp add: jointeam_checks_joinable)
next
  assume j: "joinable s user (upper (strip raw))"
  then obtain t where t: "map_of (teams s) (upper (strip raw)) = Some t"
    by (auto simp: joinable_def split: option.splits)
  show "\<exists>t. map_of (teams s) (upper (strip raw)) = Some t \<and>
          (\<forall>evs post. take 2 (jointeam_cmd True user (Some raw) evs post s) =
                         [Send (AskIGN (team_name t)), WaitFor 300]) \<and>
          (\<forall>c1 c2 rest post. lower (strip c1) \<noteq> ''cancel'' \<longrightarrow>
             (\<exists>d ds. writes (jointeam_cmd True user (Some raw) (Reply c1 # Reply c2 # rest) post s) = d # ds \<and>
                     solos d = solos s \<and> payments d = payments s \<and>
                     map_of (teams d) (upper (strip raw)) =
                       Some (t\<lparr>members := members t @ [member_entry user (strip c1) (strip c2)]\<rparr>)))"
  proof (intro exI[of _ t] conjI allI impI)
    show "map_of (teams s) (upper (strip raw)) = Some t" by (rule t)
  next
    fix evs post
    show "take 2 (jointeam_cmd True user (Some raw) evs post s) =
          [Send (AskIGN (team_name t)), WaitFor 300]"
      by (rule jointeam_asks[OF assms t j])
  next
    fix c1 c2 rest post
    assume "lower (strip c1) \<noteq> ''cancel''"
    from jointeam_appends[OF assms t j this]
    show "\<exists>d ds. writes (jointeam_cmd True user (Some raw) (Reply c1 # Reply c2 # rest) post s) = d # ds \<and>
            solos d = solos s \<and> payments d = payments s \<and>
            map_of (teams d) (upper (strip raw)) =
              Some (t\<lparr>members := members t @ [member_entry user (strip c1) (strip c2)]\<rparr>)"
      by blast
  qed
next
  fix evs post
  assume n: "\<not> joinable s user (upper (strip raw))"
  show "jointeam_cmd True user (Some raw) evs post s = [Send (join_error s user (upper (strip raw)))]"
    by (rule jointeam_rejected[OF assms n])
  then show "timeouts (jointeam_cmd True user (Some raw) evs post s) = []"
    and "writes (jointeam_cmd True user (Some raw) evs post s) = []"
    and "final_store s (jointeam_cmd True user (Some raw) evs post s) = s"
    by (simp_all add: final_store_def)
qed

lemma upper_strip_abcdef: "upper (strip '' abcdef '') = ''ABCDEF''"
  by (simp add: text_defs)

lemma joinable_foxes_2: "joinable store_foxes 2 ''ABCDEF''"
  by (simp add: joinable_def store_foxes_def new_team_def captain_entry_def)

lemma not_joinable_foxes_1: "\<not> joinable store_foxes 1 ''ABCDEF''"
  by (simp add: joinable_def store_foxes_def new_team_def captain_entry_def)

theorem jointeam_succeeds_iff_joinable_witness:
  "'' abcdef '' \<noteq> [] \<and>
   joinable store_foxes 2 (upper (strip '' abcdef '')) \<and>
   (\<exists>t. jointeam_checks True 2 (Some '' abcdef '') store_foxes = Inr (''ABCDEF'', t)) \<and>
   \<not> joinable store_foxes 1 (upper (strip '' abcdef '')) \<and>
   jointeam_cmd True 1 (Some '' abcdef '') [Reply ''Ace'', Reply ''TXN9''] None store_foxes =
     [Send AlreadyMember] \<and>
   final_store store_foxes
     (jointeam_cmd True 1 (Some '' abcdef '') [Reply ''Ace'', Reply ''TXN9''] None store_foxes) =
     store_foxes"
proof -
  have ne: "'' abcdef '' \<noteq> []" by simp
  have e: "join_error store_foxes 1 ''ABCDEF'' = AlreadyMember"
    by (simp add: join_error_def store_foxes_def new_team_def captain_entry_def)
  note T = jointeam_succeeds_iff_joinable[OF ne, unfolded upper_strip_abcdef]
  from T[of store_foxes 2] joinable_foxes_2
  have a: "\<exists>t. jointeam_checks True 2 (Some '' abcdef '') store_foxes = Inr (''ABCDEF'', t)"
    by blast
  from T[of store_foxes 1] not_joinable_foxes_1
  have b: "jointeam_cmd True 1 (Some '' abcdef '') [Reply ''Ace'', Reply ''TXN9''] None store_foxes =
             [Send (join_error store_foxes 1 ''ABCDEF'')] \<and>
           final_store store_foxes
             (jointeam_cmd True 1 (Some '' abcdef '') [Reply ''Ace'', Reply ''TXN9''] None store_foxes) =
             store_foxes"
    by blast
  show ?thesis
    using ne a b[unfolded e] joinable_foxes_2 not_joinable_foxes_1
    unfolding upper_strip_abcdef by blast
qed

section \<open>An identity in several teams\<close>

lemma find_team_split:
  "find_team u ts = Some (c, t) \<Longrightarrow>
   \<exists>pre post. ts = pre @ (c, t) # post \<and> list_all (\<lambda>(c', t'). \<not> has_member u t') pre \<and>
     has_member u t \<and> (\<forall>f. update_first_team u f ts = pre @ (c, f t) # post)"
proof (induction u ts rule: find_team.induct)
  case (1 user)
  then show ?case by simp
next
  case (2 user code t' rest)
  show ?case
  proof (cases "has_member user t'")
    case True
    with 2 have "code = c" "t' = t" by auto
    with True show ?thesis by (intro exI[of _ "[]"] exI[of _ rest]) auto
  next
    case False
    with 2 obtain pre post where pp: "rest = pre @ (c, t) # post"
      "list_all (\<lambda>(c', t'). \<not> has_member user t') pre" "has_member user t"
      "\<forall>f. update_first_team user f rest = pre @ (c, f t) # post"
      by auto
    with False show ?thesis
      by (intro exI[of _ "(code, t') # pre"] exI[of _ post]) auto
  qed
qed



lemma join_owls:
  "jointeam_cmd True 1 (Some ''GHIJKL'') [Reply ''Ace'', Reply ''TXN9''] None store_foxes_owls =
     [Send (AskIGN ''Owls''), WaitFor 300, Send AskPayment, WaitFor 600,
      SaveData store_both, Send NoGuildJoin]"
  by (simp add: jointeam_cmd_def jointeam_checks_def join_complete_def text_defs
      store_foxes_owls_def store_both_def new_team_def captain_entry_def has_member_def)





section \<open>The status of a payments entry\<close>

lemma solo_pay_ok:
  "d \<in> set (writes (handle_solo_registration user evs post s)) \<Longrightarrow> pay_ok s \<Longrightarrow> pay_ok d"
  using ask_questions_writes[of questions evs Map.empty]
  by (auto simp: handle_solo_registration_def Let_def writes_append pay_ok_def solo_payment_def
      split: prod.splits option.splits if_splits)

lemma team_pay_ok:
  "handle_team_registration user evs rnd post s = Some acts \<Longrightarrow> d \<in> set (writes acts) \<Longrightarrow>
   pay_ok s \<Longrightarrow> pay_ok d"
  by (auto simp: handle_team_registration_def Let_def pay_ok_def team_created_payment_def
      split: list.splits event.splits if_splits option.splits)

lemma join_pay_ok:
  "d \<in> set (writes (jointeam_cmd in_dm user arg evs post s)) \<Longrightarrow> pay_ok s \<Longrightarrow> pay_ok d"
  by (auto simp: jointeam_cmd_def join_complete_def Let_def writes_append pay_ok_def
      team_member_payment_def
      split: sum.splits list.splits event.splits if_splits option.splits prod.splits)

lemma verify_pay_ok:
  "d \<in> set (writes (verify_cmd user txn s)) \<Longrightarrow> pay_ok s \<Longrightarrow> pay_ok d"
  by (auto simp: verify_cmd_def Let_def writes_append pay_ok_def
      split: option.splits prod.splits if_splits)

lemma reject_pay_ok:
  "d \<in> set (writes (reject_cmd user reason s)) \<Longrightarrow> pay_ok s \<Longrightarrow> pay_ok d"
  by (auto simp: reject_cmd_def pay_ok_def split: option.splits prod.splits if_splits)

lemma step_pay_ok: "step s d \<Longrightarrow> pay_ok s \<Longrightarrow> pay_ok d"
  by (induction rule: step.induct)
     (blast intro: solo_pay_ok team_pay_ok join_pay_ok verify_pay_ok reject_pay_ok)+

lemma reachable_pay_ok: "reachable s \<Longrightarrow> pay_ok s"
  unfolding reachable_def
proof (induction rule: rtranclp_induct)
  case base
  show ?case by (simp add: pay_ok_def empty_store_def)
next
  case (step y z)
  then show ?case using step_pay_ok by blast
qed

lemma create_foxes_posted:
  "handle_team_registration 1 [Reply ''Foxes''] (\<lambda>k. k) (Some notice_a) empty_store =
     Some [Send AskTeamName, WaitFor 300, SaveData store_foxes,
           Send (TeamCreated ''Foxes'' ''ABCDEF''),
           PostEmbed ''New Team Created'' notice_a, SaveData store_foxes_posted]"
  by (simp add: handle_team_registration_def text_defs empty_store_def allocate.simps
      make_join_code_0 store_foxes_def store_foxes_posted_def new_team_def)

lemma reachable_foxes_posted: "reachable store_foxes_posted"
  using reachable_step[OF reachable_empty step.team[OF create_foxes_posted]] by simp

text \<open>
  Claim C2, as stated, fails: the team creation of user 1 in the empty store writes the
  payments entry of the key \<^verbatim>\<open>team-ABCDEF-created\<close> with the status
  \<^verbatim>\<open>"awaiting_members"\<close>, which is none of pending, verified and rejected.
\<close>

theorem payment_status_counterexample:
  "reachable store_foxes_posted \<and>
   payments store_foxes_posted (TeamCreatedKey ''ABCDEF'') =
     Some (team_created_payment ''ABCDEF'' notice_a) \<and>
   status (team_created_payment ''ABCDEF'' notice_a) = ''awaiting_members'' \<and>
   status (team_created_payment ''ABCDEF'' notice_a) \<notin> {''pending'', ''verified'', ''rejected''}"
  using reachable_foxes_posted
  by (simp add: store_foxes_posted_def team_created_payment_def)

text \<open>
  Claim C2, amended. In every reachable store, every entry of the payments index has a
  status among pending, verified, rejected and awaiting\_members; the status is
  awaiting\_members exactly for the entries of team creations, so the entries of solo
  registrations and of team members have a status among pending, verified and
  rejected.
\<close>

theorem payment_status_by_key:
  assumes "reachable s" and "payments s k = Some p"
  shows "status p \<in> {''pending'', ''verified'', ''rejected'', ''awaiting_members''} \<and>
         (status p = ''awaiting_members'' \<longleftrightarrow> (\<exists>c. k = TeamCreatedKey c))"
proof -
  have "status p \<in> set (key_statuses k)"
    using reachable_pay_ok[OF assms(1)] assms(2) by (simp add: pay_ok_def)
  then show ?thesis
    by (cases k) auto
qed

theorem payment_status_by_key_witness:
  "status (team_created_payment ''ABCDEF'' notice_a)
     \<in> {''pending'', ''verified'', ''rejected'', ''awaiting_members''} \<and>
   (status (team_created_payment ''ABCDEF'' notice_a) = ''awaiting_members'' \<longleftrightarrow>
      (\<exists>c. TeamCreatedKey ''ABCDEF'' = TeamCreatedKey c))"
proof -
  have p: "payments store_foxes_posted (TeamCreatedKey ''ABCDEF'') =
             Some (team_created_payment ''ABCDEF'' notice_a)"
    by (simp add: store_foxes_posted_def)
  show ?thesis
    by (rule payment_status_by_key[OF reachable_foxes_posted p])
qed

section \<open>A team is confirmed exactly when it is complete\<close>






































section \<open>One notice, edited in place\<close>

lemma posts_append: "posts (xs @ ys) = posts xs @ posts ys"
  by (induction xs rule: posts.induct) auto





lemma verify_posts: "posts (verify_cmd user txn_ref s) = []"
  by (auto simp: verify_cmd_def Let_def posts_append split: option.splits prod.splits)





section \<open>The timeouts of the waits\<close>

lemma timeouts_append: "timeouts (xs @ ys) = timeouts xs @ timeouts ys"
  by (induction xs rule: timeouts.induct) auto

lemma ask_questions_timeouts: "set (timeouts (fst (ask_questions qs evs a))) \<subseteq> {600}"
proof (induction qs arbitrary: evs a)
  case Nil
  show ?case by simp
next
  case (Cons k qs)
  show ?case
  proof (cases evs)
    case Nil
    then show ?thesis by simp
  next
    case (Cons e es)
    then show ?thesis using Cons.IH by (cases e) (simp_all add: case_prod_unfold)
  qed
qed

text \<open>The questions asked up to and including the one that gets no answer or cancel.\<close>

lemma ask_questions_abort:
  assumes "length rs < length qs" "\<forall>r \<in> set rs. lower (strip r) \<noteq> ''cancel''"
    "tl_evs = [] \<or> (\<exists>rest. tl_evs = Timeout # rest)"
  shows "\<exists>acts. ask_questions qs (map Reply rs @ tl_evs) a = (acts @ [Send TimedOutRegister], None) \<and>
                timeouts acts = replicate (Suc (length rs)) 600"
  using assms
proof (induction rs arbitrary: qs a)
  case Nil
  then obtain k qs' where "qs = k # qs'" by (cases qs) auto
  with Nil show ?case
    by (auto intro!: exI[of _ "[Send (Question k), WaitFor 600]"])
next
  case (Cons r rs)
  then obtain k qs' where q: "qs = k # qs'" by (cases qs) auto
  with Cons.prems have "length rs < length qs'" "\<forall>r \<in> set rs. lower (strip r) \<noteq> ''cancel''"
    by auto
  from Cons.IH[OF this Cons.prems(3), of "a(k \<mapsto> strip r)"] obtain acts where
    "ask_questions qs' (map Reply rs @ tl_evs) (a(k \<mapsto> strip r)) = (acts @ [Send TimedOutRegister], None)"
    "timeouts acts = replicate (Suc (length rs)) 600"
    by blast
  with q Cons.prems(2) show ?case
    by (auto intro!: exI[of _ "Send (Question k) # WaitFor 600 # acts"])
qed

lemma no_reply_cases: "no_reply evs \<Longrightarrow> evs = [] \<or> (\<exists>rest. evs = Timeout # rest)"
  by (auto simp: no_reply_def split: list.splits event.splits)

lemma register_first_wait:
  "register_cmd True user evs rnd post s = Some acts \<Longrightarrow> \<exists>ws. timeouts acts = 300 # ws"
  by (auto simp: register_cmd_def split: list.splits event.splits if_splits)

lemma solo_timeouts: "set (timeouts (handle_solo_registration user evs post s)) \<subseteq> {600}"
  using ask_questions_timeouts[of questions evs Map.empty]
  by (auto simp: handle_solo_registration_def Let_def timeouts_append split: prod.splits option.splits)

lemma team_timeouts:
  "handle_team_registration user evs rnd post s = Some acts \<Longrightarrow> timeouts acts = [300]"
  by (auto simp: handle_team_registration_def Let_def
      split: list.splits event.splits if_splits option.splits)

lemma join_timeouts: "timeouts (jointeam_cmd in_dm user arg evs post s) \<in> {[], [300], [300, 600]}"
  by (auto simp: jointeam_cmd_def join_complete_def Let_def timeouts_append
      split: sum.splits list.splits event.splits if_splits option.splits prod.splits)

lemma register_timeout:
  "no_reply evs \<Longrightarrow>
   register_cmd True user evs rnd post s = Some [Send Welcome, WaitFor 300, Send TimedOutRegister]"
  by (auto simp: register_cmd_def dest!: no_reply_cases)

lemma team_timeout:
  "no_reply evs \<Longrightarrow>
   handle_team_registration user evs rnd post s =
     Some [Send AskTeamName, WaitFor 300, Send TimedOutRegister]"
  by (auto simp: handle_team_registration_def dest!: no_reply_cases)

lemma solo_timeout:
  assumes "length rs < 5" "\<forall>r \<in> set rs. lower (strip r) \<noteq> ''cancel''" "no_reply evs"
  shows "\<exists>acts. handle_solo_registration user (map Reply rs @ evs) post s = acts @ [Send TimedOutRegister] \<and>
           timeouts acts = replicate (Suc (length rs)) 600 \<and>
           writes (handle_solo_registration user (map Reply rs @ evs) post s) = []"
proof -
  have "length rs < length questions" using assms(1) by (simp add: questions_def)
  from ask_questions_abort[OF this assms(2) no_reply_cases[OF assms(3)], of Map.empty]
  obtain acts where a: "ask_questions questions (map Reply rs @ evs) Map.empty = (acts @ [Send TimedOutRegister], None)"
    "timeouts acts = replicate (Suc (length rs)) 600" by blast
  have "writes (acts @ [Send TimedOutRegister]) = []"
    using ask_questions_writes[of questions "map Reply rs @ evs" Map.empty] a(1) by simp
  with a show ?thesis
    by (auto simp: handle_solo_registration_def)
qed

lemma join_timeout_ign:
  "jointeam_checks in_dm user arg s = Inr (code, t) \<Longrightarrow> no_reply evs \<Longrightarrow>
   jointeam_cmd in_dm user arg evs post s =
     [Send (AskIGN (team_name t)), WaitFor 300, Send TimedOutJoin]"
  by (auto simp: jointeam_cmd_def dest!: no_reply_cases)

lemma join_timeout_payment:
  "jointeam_checks in_dm user arg s = Inr (code, t) \<Longrightarrow> lower (strip c1) \<noteq> ''cancel'' \<Longrightarrow>
   no_reply evs \<Longrightarrow>
   jointeam_cmd in_dm user arg (Reply c1 # evs) post s =
     [Send (AskIGN (team_name t)), WaitFor 300, Send AskPayment, WaitFor 600, Send TimedOutJoin]"
  by (auto simp: jointeam_cmd_def dest!: no_reply_cases)

text \<open>
  Claim C6, as stated, fails for two data-collection steps: the wait for the team name
  and the wait for the IGN of the join flow have \<^verbatim>\<open>timeout=300\<close>, not 600.
\<close>

theorem data_collection_wait_counterexample:
  "handle_team_registration 1 [Reply ''Foxes''] (\<lambda>k. k) None empty_store =
     Some [Send AskTeamName, WaitFor 300, SaveData store_foxes,
           Send (TeamCreated ''Foxes'' ''ABCDEF'')] \<and>
   timeouts [Send AskTeamName, WaitFor 300, SaveData store_foxes,
             Send (TeamCreated ''Foxes'' ''ABCDEF'')] = [300] \<and>
   timeouts (jointeam_cmd True 1 (Some ''GHIJKL'') [Reply ''Ace'', Reply ''TXN9''] None
               store_foxes_owls) = [300, 600]"
  unfolding create_foxes join_owls by simp

text \<open>
  Claim C6, amended. The wait for the choice between solo and team, the wait for the
  team name and the wait for the IGN of the join flow have a timeout of 300 seconds;
  every wait of the solo flow and the wait for the payment proof of the join flow have
  a timeout of 600 seconds. When a wait gets no reply the run ends with the notice to
  run the command again, and it has written nothing.
\<close>

theorem wait_timeouts:
  "(\<forall>acts. register_cmd True user evs rnd post s = Some acts \<longrightarrow> (\<exists>ws. timeouts acts = 300 # ws)) \<and>
   set (timeouts (handle_solo_registration user evs post s)) \<subseteq> {600} \<and>
   (\<forall>acts. handle_team_registration user evs rnd post s = Some acts \<longrightarrow> timeouts acts = [300]) \<and>
   timeouts (jointeam_cmd in_dm user arg evs post s) \<in> {[], [300], [300, 600]} \<and>
   (no_reply evs \<longrightarrow>
      register_cmd True user evs rnd post s = Some [Send Welcome, WaitFor 300, Send TimedOutRegister]) \<and>
   (no_reply evs \<longrightarrow>
      handle_team_registration user evs rnd post s =
        Some [Send AskTeamName, WaitFor 300, Send TimedOutRegister]) \<and>
   (\<forall>rs. length rs < 5 \<longrightarrow> (\<forall>r \<in> set rs. lower (strip r) \<noteq> ''cancel'') \<longrightarrow> no_reply evs \<longrightarrow>
      (\<exists>acts. handle_solo_registration user (map Reply rs @ evs) post s = acts @ [Send TimedOutRegister] \<and>
              timeouts acts = replicate (Suc (length rs)) 600 \<and>
              writes (handle_solo_registration user (map Reply rs @ evs) post s) = [])) \<and>
   (\<forall>code t. jointeam_checks in_dm user arg s = Inr (code, t) \<longrightarrow> no_reply evs \<longrightarrow>
      jointeam_cmd in_dm user arg evs post s =
        [Send (AskIGN (team_name t)), WaitFor 300, Send TimedOutJoin]) \<and>
   (\<forall>code t c1. jointeam_checks in_dm user arg s = Inr (code, t) \<longrightarrow>
      lower (strip c1) \<noteq> ''cancel'' \<longrightarrow> no_reply evs \<longrightarrow>
      jointeam_cmd in_dm user arg (Reply c1 # evs) post s =
        [Send (AskIGN (team_name t)), WaitFor 300, Send AskPayment, WaitFor 600, Send TimedOutJoin])"
  using register_first_wait[of user evs rnd post s] solo_timeouts[of user evs post s]
    team_timeouts[of user evs rnd post s] join_timeouts[of in_dm user arg evs post s]
    register_timeout[of evs user rnd post s] team_timeout[of evs user rnd post s]
    solo_timeout[of _ evs user post s] join_timeout_ign[of in_dm user arg s _ _ evs post]
    join_timeout_payment[of in_dm user arg s _ _ _ evs post]
  by (intro conjI allI impI) blast+

theorem wait_timeouts_witness:
  "no_reply [] \<and>
   register_cmd True 1 [] (\<lambda>k. k) None empty_store =
     Some [Send Welcome, WaitFor 300, Send TimedOutRegister] \<and>
   handle_team_registration 1 [] (\<lambda>k. k) None empty_store =
     Some [Send AskTeamName, WaitFor 300, Send TimedOutRegister] \<and>
   (\<exists>acts. handle_solo_registration 1 (map Reply [''Alice Smith'', ''AliceIGN''] @ []) None empty_store =
             acts @ [Send TimedOutRegister] \<and>
           timeouts acts = replicate (Suc (length [''Alice Smith'', ''AliceIGN''])) 600 \<and>
           writes (handle_solo_registration 1 (map Reply [''Alice Smith'', ''AliceIGN''] @ []) None
                     empty_store) = [])"
proof -
  have n: "no_reply []"
    by (simp add: no_reply_def)
  have l: "length [''Alice Smith'', ''AliceIGN''] < 5"
    by simp
  have c: "\<forall>r \<in> set [''Alice Smith'', ''AliceIGN'']. lower (strip r) \<noteq> ''cancel''"
    by (simp add: text_defs)
  note th = wait_timeouts[where evs = "[]" and user = 1 and rnd = "\<lambda>k. k" and post = None
      and s = empty_store]
  from th n l c show ?thesis by blast
qed

section \<open>When the notice reference is written\<close>









section \<open>Verifying twice\<close>

lemma edits_append: "edits (xs @ ys) = edits xs @ edits ys"
  by (induction xs rule: edits.induct) auto

lemma verify_solo_path:
  assumes "solos s user = Some r"
  shows "final_store s (verify_cmd user txn s) =
           s\<lparr>solos := (solos s)(user \<mapsto> r\<lparr>paid := True, payment_txn := Some (txn_or_default txn)\<rparr>),
             payments := (case payments s (SoloKey user) of None \<Rightarrow> payments s
                          | Some p \<Rightarrow> (payments s)(SoloKey user \<mapsto> p\<lparr>status := ''verified''\<rparr>))\<rparr>"
    and "edits (verify_cmd user txn s) =
           (case payments s (SoloKey user) of None \<Rightarrow> []
            | Some p \<Rightarrow> [(p_channel_id p, p_message_id p)])"
  using assms
  by (auto simp: verify_cmd_def Let_def final_store_def split: option.splits)

lemma verify_team_final:
  assumes "solos s user = None" "find_team user (teams s) = Some (code, t)"
  shows "final_store s (verify_cmd user txn s) =
           s\<lparr>teams := update_first_team user (verify_team user (txn_or_default txn)) (teams s),
             payments := (case payments s (TeamMemberKey code user) of None \<Rightarrow> payments s
                          | Some p \<Rightarrow> (payments s)(TeamMemberKey code user \<mapsto> p\<lparr>status := ''verified''\<rparr>))\<rparr>"
    and "edits (verify_cmd user txn s) =
           (case payments s (TeamMemberKey code user) of None \<Rightarrow> []
            | Some p \<Rightarrow> [(p_channel_id p, p_message_id p)])"
  using assms
  by (auto simp: verify_cmd_def Let_def final_store_def writes_append edits_append split: option.splits)

lemma verify_not_found:
  "solos s user = None \<Longrightarrow> find_team user (teams s) = None \<Longrightarrow>
   verify_cmd user txn s = [Send NotFoundVerify]"
  by (simp add: verify_cmd_def)

lemma mark_paid_ids: "map m_discord_id (mark_paid u x ms) = map m_discord_id ms"
  by (induction ms) auto

lemma mark_paid_ids_set: "m_discord_id ` set (mark_paid u x ms) = m_discord_id ` set ms"
  using mark_paid_ids[of u x ms] by (metis set_map)

lemma has_member_verify_team: "has_member u' (verify_team u x t) = has_member u' t"
  by (simp add: has_member_def verify_team_def paid_team_def mark_paid_ids_set)

lemma find_team_update_first:
  "(\<And>t. has_member u (f t) = has_member u t) \<Longrightarrow>
   find_team u (update_first_team u f ts) = map_option (\<lambda>(c, t). (c, f t)) (find_team u ts)"
  by (induction u f ts rule: update_first_team.induct) auto

lemma update_first_team_twice:
  "(\<And>t. has_member u (f t) = has_member u t) \<Longrightarrow>
   update_first_team u g (update_first_team u f ts) = update_first_team u (\<lambda>t. g (f t)) ts"
  by (induction u f ts rule: update_first_team.induct) auto

lemma mark_paid_twice: "mark_paid u y (mark_paid u x ms) = mark_paid u y ms"
  by (induction ms) auto

lemma mark_paid_flags: "map m_paid (mark_paid u x ms) = map m_paid (mark_paid u y ms)"
  by (induction ms) auto

lemma is_complete_flags:
  "is_complete t = (length (map m_paid (members t)) = 5 \<and> list_all id (map m_paid (members t)))"
  by (simp add: is_complete_def list_all_iff)

lemma is_complete_paid_team_indep: "is_complete (paid_team u x t) = is_complete (paid_team u y t)"
  unfolding is_complete_flags by (simp add: paid_team_def mark_paid_flags[of u x _ y])

lemma verify_team_twice: "verify_team u y (verify_team u x t) = verify_team u y t"
proof -
  have p: "\<And>c. paid_team u y ((paid_team u x t)\<lparr>confirmed := c\<rparr>) = (paid_team u y t)\<lparr>confirmed := c\<rparr>"
    "paid_team u y (paid_team u x t) = paid_team u y t"
    by (simp_all add: paid_team_def mark_paid_twice)
  have c: "\<And>t c. is_complete (t\<lparr>confirmed := c\<rparr>) = is_complete t"
    by (simp add: is_complete_def)
  show ?thesis
    using is_complete_paid_team_indep[of u x t y]
    by (auto simp: verify_team_def p c)
qed

lemma verify_twice:
  "final_store (final_store s (verify_cmd user t1 s)) (verify_cmd user t2 (final_store s (verify_cmd user t1 s)))
     = final_store s (verify_cmd user t2 s) \<and>
   edits (verify_cmd user t2 (final_store s (verify_cmd user t1 s))) = edits (verify_cmd user t1 s)"
proof (cases "solos s user")
  case (Some r)
  let ?d = "final_store s (verify_cmd user t1 s)"
  have d: "solos ?d user = Some (r\<lparr>paid := True, payment_txn := Some (txn_or_default t1)\<rparr>)"
    by (simp add: verify_solo_path(1)[OF Some])
  show ?thesis
    unfolding verify_solo_path[OF d]
    by (auto simp: verify_solo_path[OF Some] split: option.splits)
next
  case None
  show ?thesis
  proof (cases "find_team user (teams s)")
    case N: None
    then show ?thesis by (simp add: verify_not_found[OF None N] final_store_def)
  next
    case (Some ct)
    then obtain code t where ct: "find_team user (teams s) = Some (code, t)" by (cases ct) auto
    let ?d = "final_store s (verify_cmd user t1 s)"
    have d1: "solos ?d user = None"
      by (simp add: verify_team_final(1)[OF None ct] None)
    have d2: "find_team user (teams ?d) = Some (code, verify_team user (txn_or_default t1) t)"
      by (simp add: verify_team_final(1)[OF None ct] find_team_update_first has_member_verify_team ct)
    show ?thesis
      unfolding verify_team_final[OF d1 d2]
      by (auto simp: verify_team_final[OF None ct] update_first_team_twice has_member_verify_team
          verify_team_twice split: option.splits)
  qed
qed

lemma register_alice:
  "handle_solo_registration 7
     [Reply ''Alice Smith'', Reply ''AliceIGN'', Reply ''Gold II'', Reply ''Immortal I'', Reply ''TXN123'']
     (Some notice_a) empty_store =
   [Send (Question ''real_name''), WaitFor 600, Send (Question ''ign''), WaitFor 600,
    Send (Question ''current_rank''), WaitFor 600, Send (Question ''peak_rank''), WaitFor 600,
    Send (Question ''payment_proof''), WaitFor 600,
    PostEmbed ''New Solo Registration'' notice_a, SaveData store_alice,
    Send SoloThanks, Announce NewSoloReceived]"
  by (simp add: handle_solo_registration_def questions_def text_defs new_solo_def answer_def
      empty_store_def store_alice_def alice_def)

lemma mark_paid_finds:
  "u \<in> set (map m_discord_id ms) \<Longrightarrow>
   \<exists>m. find (\<lambda>m. m_discord_id m = u) (mark_paid u x ms) = Some m \<and> m_paid m \<and> m_payment_txn m = Some x"
  by (induction ms) auto

lemma verify_team_finds:
  "has_member u t \<Longrightarrow>
   \<exists>m. find_member u (members (verify_team u x t)) = Some m \<and> m_paid m \<and> m_payment_txn m = Some x"
  using mark_paid_finds[of u "members t" x]
  by (auto simp: has_member_def verify_team_def paid_team_def find_member_def)

lemma find_team_has_member: "find_team u ts = Some (c, t) \<Longrightarrow> has_member u t"
  using find_team_split by blast

lemma verify_edits_le: "length (edits (verify_cmd user txn s)) \<le> 1"
  by (auto simp: verify_cmd_def Let_def edits_append split: option.splits prod.splits)

text \<open>
  Claim C7, as stated, fails for an identity whose registration record has no entry in
  the payments index, such as the captain of a team: user 1 has created Foxes (with a
  guild), so the index holds the entry of the team creation only. Verifying user 1
  twice edits no notice and leaves the index as it was: there is no entry of user 1
  whose status is verified.
\<close>

theorem verify_captain_twice_counterexample:
  "solos store_foxes_posted 1 = None \<and>
   find_team 1 (teams store_foxes_posted) =
     Some (''ABCDEF'', (new_team ''Foxes'' 1)\<lparr>admin_msg := Some notice_a\<rparr>) \<and>
   payments store_foxes_posted (TeamMemberKey ''ABCDEF'' 1) = None \<and>
   payments store_foxes_posted (SoloKey 1) = None \<and>
   edits (verify_cmd 1 (Some ''TXN1'') store_foxes_posted) = [] \<and>
   edits (verify_cmd 1 (Some ''TXN2'')
            (final_store store_foxes_posted (verify_cmd 1 (Some ''TXN1'') store_foxes_posted))) = [] \<and>
   payments (final_store
               (final_store store_foxes_posted (verify_cmd 1 (Some ''TXN1'') store_foxes_posted))
               (verify_cmd 1 (Some ''TXN2'')
                  (final_store store_foxes_posted (verify_cmd 1 (Some ''TXN1'') store_foxes_posted)))) =
     payments store_foxes_posted"
proof -
  have n: "solos store_foxes_posted 1 = None"
    by (simp add: store_foxes_posted_def)
  have f: "find_team 1 (teams store_foxes_posted) =
     Some (''ABCDEF'', (new_team ''Foxes'' 1)\<lparr>admin_msg := Some notice_a\<rparr>)"
    by (simp add: store_foxes_posted_def has_member_def new_team_def captain_entry_def)
  have k: "payments store_foxes_posted (TeamMemberKey ''ABCDEF'' 1) = None"
    "payments store_foxes_posted (SoloKey 1) = None"
    by (simp_all add: store_foxes_posted_def)
  have e1: "edits (verify_cmd 1 (Some ''TXN1'') store_foxes_posted) = []"
    by (simp only: verify_team_final(2)[OF n f] k option.case)
  have e2: "edits (verify_cmd 1 (Some ''TXN2'')
            (final_store store_foxes_posted (verify_cmd 1 (Some ''TXN1'') store_foxes_posted))) = []"
    by (simp only: verify_twice[of store_foxes_posted 1 "Some ''TXN1''" "Some ''TXN2''", THEN conjunct2] e1)
  have "final_store
               (final_store store_foxes_posted (verify_cmd 1 (Some ''TXN1'') store_foxes_posted))
               (verify_cmd 1 (Some ''TXN2'')
                  (final_store store_foxes_posted (verify_cmd 1 (Some ''TXN1'') store_foxes_posted))) =
        final_store store_foxes_posted (verify_cmd 1 (Some ''TXN2'') store_foxes_posted)"
    by (rule verify_twice[THEN conjunct1])
  also have "\<dots> = store_foxes_posted
      \<lparr>teams := update_first_team 1 (verify_team 1 (txn_or_default (Some ''TXN2''))) (teams store_foxes_posted),
       payments := payments store_foxes_posted\<rparr>"
    by (simp only: verify_team_final(1)[OF n f] k option.case)
  finally have p: "payments (final_store
               (final_store store_foxes_posted (verify_cmd 1 (Some ''TXN1'') store_foxes_posted))
               (verify_cmd 1 (Some ''TXN2'')
                  (final_store store_foxes_posted (verify_cmd 1 (Some ''TXN1'') store_foxes_posted)))) =
     payments store_foxes_posted"
    by simp
  from n f k e1 e2 p show ?thesis by blast
qed

text \<open>
  Claim C7, amended. Verifying an identity twice leaves the store as a single
  verification with the second transaction reference leaves it. For an identity with
  a solo record, and otherwise for an identity that is a member of a team, the paid
  flag is true afterwards and the stored transaction reference is the one of the
  second call, or \<open>verified-by-admin\<close> when that is omitted or empty. When the
  payments index has the entry of the identity (\<^verbatim>\<open>solo-<id>\<close>, or
  \<^verbatim>\<open>team-<code>-member-<id>\<close> for the first team that lists it), its status is verified
  afterwards and each of the two calls requests one edit of the notice that the entry
  records; when the index has no such entry, the index is unchanged and no edit is
  requested. Neither call publishes a notice.
\<close>

theorem verify_twice_result:
  assumes "d1 = final_store s (verify_cmd user t1 s)"
    and "d2 = final_store d1 (verify_cmd user t2 d1)"
  shows "d2 = final_store s (verify_cmd user t2 s) \<and>
     edits (verify_cmd user t2 d1) = edits (verify_cmd user t1 s) \<and>
     length (edits (verify_cmd user t1 s)) \<le> 1 \<and>
     posts (verify_cmd user t1 s) = [] \<and> posts (verify_cmd user t2 d1) = [] \<and>
     (\<forall>r. solos s user = Some r \<longrightarrow>
        solos d2 user = Some (r\<lparr>paid := True, payment_txn := Some (txn_or_default t2)\<rparr>) \<and>
        (case payments s (SoloKey user) of
           None \<Rightarrow> payments d2 = payments s \<and> edits (verify_cmd user t1 s) = []
         | Some p \<Rightarrow> payments d2 (SoloKey user) = Some (p\<lparr>status := ''verified''\<rparr>) \<and>
                     edits (verify_cmd user t1 s) = [(p_channel_id p, p_message_id p)])) \<and>
     (\<forall>code t. solos s user = None \<longrightarrow> find_team user (teams s) = Some (code, t) \<longrightarrow>
        (\<exists>t' m. find_team user (teams d2) = Some (code, t') \<and>
                find_member user (members t') = Some m \<and> m_paid m \<and>
                m_payment_txn m = Some (txn_or_default t2)) \<and>
        (case payments s (TeamMemberKey code user) of
           None \<Rightarrow> payments d2 = payments s \<and> edits (verify_cmd user t1 s) = []
         | Some p \<Rightarrow> payments d2 (TeamMemberKey code user) = Some (p\<lparr>status := ''verified''\<rparr>) \<and>
                     edits (verify_cmd user t1 s) = [(p_channel_id p, p_message_id p)])) \<and>
     txn_or_default None = ''verified-by-admin'' \<and>
     (\<forall>x. x \<noteq> [] \<longrightarrow> txn_or_default (Some x) = x)"
proof -
  have tw: "d2 = final_store s (verify_cmd user t2 s)"
    "edits (verify_cmd user t2 d1) = edits (verify_cmd user t1 s)"
    using verify_twice[of s user t1 t2] assms by simp_all
  have solo: "\<forall>r. solos s user = Some r \<longrightarrow>
        solos d2 user = Some (r\<lparr>paid := True, payment_txn := Some (txn_or_default t2)\<rparr>) \<and>
        (case payments s (SoloKey user) of
           None \<Rightarrow> payments d2 = payments s \<and> edits (verify_cmd user t1 s) = []
         | Some p \<Rightarrow> payments d2 (SoloKey user) = Some (p\<lparr>status := ''verified''\<rparr>) \<and>
                     edits (verify_cmd user t1 s) = [(p_channel_id p, p_message_id p)])"
  proof (intro allI impI)
    fix r assume r: "solos s user = Some r"
    show "solos d2 user = Some (r\<lparr>paid := True, payment_txn := Some (txn_or_default t2)\<rparr>) \<and>
        (case payments s (SoloKey user) of
           None \<Rightarrow> payments d2 = payments s \<and> edits (verify_cmd user t1 s) = []
         | Some p \<Rightarrow> payments d2 (SoloKey user) = Some (p\<lparr>status := ''verified''\<rparr>) \<and>
                     edits (verify_cmd user t1 s) = [(p_channel_id p, p_message_id p)])"
      unfolding tw(1) verify_solo_path[OF r] by (simp split: option.splits)
  qed
  have team: "\<forall>code t. solos s user = None \<longrightarrow> find_team user (teams s) = Some (code, t) \<longrightarrow>
        (\<exists>t' m. find_team user (teams d2) = Some (code, t') \<and>
                find_member user (members t') = Some m \<and> m_paid m \<and>
                m_payment_txn m = Some (txn_or_default t2)) \<and>
        (case payments s (TeamMemberKey code user) of
           None \<Rightarrow> payments d2 = payments s \<and> edits (verify_cmd user t1 s) = []
         | Some p \<Rightarrow> payments d2 (TeamMemberKey code user) = Some (p\<lparr>status := ''verified''\<rparr>) \<and>
                     edits (verify_cmd user t1 s) = [(p_channel_id p, p_message_id p)])"
  proof (intro allI impI)
    fix code t assume n: "solos s user = None" and f: "find_team user (teams s) = Some (code, t)"
    have ft: "find_team user (teams d2) = Some (code, verify_team user (txn_or_default t2) t)"
      unfolding tw(1) verify_team_final(1)[OF n f]
      by (simp add: find_team_update_first has_member_verify_team f)
    from verify_team_finds[OF find_team_has_member[OF f], of "txn_or_default t2"] ft
    have a: "\<exists>t' m. find_team user (teams d2) = Some (code, t') \<and>
                find_member user (members t') = Some m \<and> m_paid m \<and>
                m_payment_txn m = Some (txn_or_default t2)"
      by blast
    have b: "case payments s (TeamMemberKey code user) of
           None \<Rightarrow> payments d2 = payments s \<and> edits (verify_cmd user t1 s) = []
         | Some p \<Rightarrow> payments d2 (TeamMemberKey code user) = Some (p\<lparr>status := ''verified''\<rparr>) \<and>
                     edits (verify_cmd user t1 s) = [(p_channel_id p, p_message_id p)]"
      unfolding tw(1) verify_team_final[OF n f] by (simp split: option.splits)
    from a b show "(\<exists>t' m. find_team user (teams d2) = Some (code, t') \<and>
                find_member user (members t') = Some m \<and> m_paid m \<and>
                m_payment_txn m = Some (txn_or_default t2)) \<and>
        (case payments s (TeamMemberKey code user) of
           None \<Rightarrow> payments d2 = payments s \<and> edits (verify_cmd user t1 s) = []
         | Some p \<Rightarrow> payments d2 (TeamMemberKey code user) = Some (p\<lparr>status := ''verified''\<rparr>) \<and>
                     edits (verify_cmd user t1 s) = [(p_channel_id p, p_message_id p)])"
      by blast
  qed
  have txn: "txn_or_default None = ''verified-by-admin'' \<and> (\<forall>x. x \<noteq> [] \<longrightarrow> txn_or_default (Some x) = x)"
    by (simp add: txn_or_default_def)
  from tw solo team txn verify_edits_le[of user t1 s] verify_posts[of user t1 s] verify_posts[of user t2 d1]
  show ?thesis by blast
qed

theorem verify_twice_result_witness:
  "solos (final_store (final_store store_alice (verify_cmd 7 (Some ''TXN123'') store_alice))
            (verify_cmd 7 None (final_store store_alice (verify_cmd 7 (Some ''TXN123'') store_alice)))) 7 =
     Some (alice\<lparr>paid := True, payment_txn := Some ''verified-by-admin''\<rparr>) \<and>
   payments (final_store (final_store store_alice (verify_cmd 7 (Some ''TXN123'') store_alice))
            (verify_cmd 7 None (final_store store_alice (verify_cmd 7 (Some ''TXN123'') store_alice))))
     (SoloKey 7) = Some ((solo_payment 7 notice_a)\<lparr>status := ''verified''\<rparr>) \<and>
   edits (verify_cmd 7 (Some ''TXN123'') store_alice) = [(10, 20)] \<and>
   edits (verify_cmd 7 None (final_store store_alice (verify_cmd 7 (Some ''TXN123'') store_alice))) =
     [(10, 20)] \<and>
   posts (verify_cmd 7 (Some ''TXN123'') store_alice) = [] \<and>
   posts (verify_cmd 7 None (final_store store_alice (verify_cmd 7 (Some ''TXN123'') store_alice))) = []"
proof -
  note th = verify_twice_result[OF refl refl, of store_alice 7 "Some ''TXN123''" None]
  have r: "solos store_alice 7 = Some alice"
    by (simp add: store_alice_def)
  have p: "payments store_alice (SoloKey 7) = Some (solo_payment 7 notice_a)"
    by (simp add: store_alice_def)
  have c: "p_channel_id (solo_payment 7 notice_a) = 10" "p_message_id (solo_payment 7 notice_a) = 20"
    by (simp_all add: solo_payment_def notice_a_def)
  from th r have "solos (final_store (final_store store_alice (verify_cmd 7 (Some ''TXN123'') store_alice))
            (verify_cmd 7 None (final_store store_alice (verify_cmd 7 (Some ''TXN123'') store_alice)))) 7 =
     Some (alice\<lparr>paid := True, payment_txn := Some (txn_or_default None)\<rparr>) \<and>
     (case payments store_alice (SoloKey 7) of
           None \<Rightarrow> payments (final_store (final_store store_alice (verify_cmd 7 (Some ''TXN123'') store_alice))
            (verify_cmd 7 None (final_store store_alice (verify_cmd 7 (Some ''TXN123'') store_alice)))) = payments store_alice \<and> edits (verify_cmd 7 (Some ''TXN123'') store_alice) = []
         | Some p \<Rightarrow> payments (final_store (final_store store_alice (verify_cmd 7 (Some ''TXN123'') store_alice))
            (verify_cmd 7 None (final_store store_alice (verify_cmd 7 (Some ''TXN123'') store_alice)))) (SoloKey 7) = Some (p\<lparr>status := ''verified''\<rparr>) \<and>
                     edits (verify_cmd 7 (Some ''TXN123'') store_alice) = [(p_channel_id p, p_message_id p)])"
    by blast
  with th show ?thesis
    by (simp add: p c)
qed

section \<open>The cancel keyword\<close>

text \<open>The solo flow tests every answer for the keyword, the payment proof too; the team
  creation tests the team name; the join flow tests the IGN. Each of them then ends
  with its acknowledgment and writes nothing.\<close>

lemma ask_questions_cancel:
  assumes "length rs < length qs" "\<forall>r \<in> set rs. lower (strip r) \<noteq> ''cancel''"
    "lower (strip c) = ''cancel''"
  shows "\<exists>acts. ask_questions qs (map Reply rs @ Reply c # rest) a =
                  (acts @ [Send RegistrationCancelled], None)"
  using assms
proof (induction rs arbitrary: qs a)
  case Nil
  then obtain k qs' where "qs = k # qs'" by (cases qs) auto
  with Nil show ?case
    by (auto intro!: exI[of _ "[Send (Question k), WaitFor 600]"])
next
  case (Cons r rs)
  then obtain k qs' where q: "qs = k # qs'" by (cases qs) auto
  with Cons.prems have "length rs < length qs'" "\<forall>r \<in> set rs. lower (strip r) \<noteq> ''cancel''"
    by auto
  from Cons.IH[OF this Cons.prems(3), of "a(k \<mapsto> strip r)"] obtain acts where
    "ask_questions qs' (map Reply rs @ Reply c # rest) (a(k \<mapsto> strip r)) =
       (acts @ [Send RegistrationCancelled], None)"
    by blast
  with q Cons.prems(2) show ?case
    by (auto intro!: exI[of _ "Send (Question k) # WaitFor 600 # acts"])
qed

lemma solo_cancel:
  assumes "length rs < 5" "\<forall>r \<in> set rs. lower (strip r) \<noteq> ''cancel''" "lower (strip c) = ''cancel''"
  shows "\<exists>acts. handle_solo_registration user (map Reply rs @ Reply c # rest) post s =
                  acts @ [Send RegistrationCancelled] \<and>
           writes (handle_solo_registration user (map Reply rs @ Reply c # rest) post s) = []"
proof -
  have "length rs < length questions" using assms(1) by (simp add: questions_def)
  from ask_questions_cancel[OF this assms(2,3), of rest Map.empty]
  obtain acts where a: "ask_questions questions (map Reply rs @ Reply c # rest) Map.empty =
      (acts @ [Send RegistrationCancelled], None)" by blast
  have "writes (acts @ [Send RegistrationCancelled]) = []"
    using ask_questions_writes[of questions "map Reply rs @ Reply c # rest" Map.empty] a by simp
  with a show ?thesis
    by (auto simp: handle_solo_registration_def)
qed

lemma team_cancel:
  "lower (strip c) = ''cancel'' \<Longrightarrow>
   handle_team_registration user (Reply c # rest) rnd post s =
     Some [Send AskTeamName, WaitFor 300, Send RegistrationCancelled]"
  by (simp add: handle_team_registration_def)

lemma join_cancel_ign:
  "jointeam_checks in_dm user arg s = Inr (code, t) \<Longrightarrow> lower (strip c) = ''cancel'' \<Longrightarrow>
   jointeam_cmd in_dm user arg (Reply c # rest) post s =
     [Send (AskIGN (team_name t)), WaitFor 300, Send JoinCancelled]"
  by (simp add: jointeam_cmd_def)

text \<open>
  Claim C1 at the question of the join flow for the payment proof. User 2 joins the
  team Foxes of the store \<open>store_foxes_posted\<close>, answers the first question with Ace
  and the second with the cancel keyword. The run does not stop: it has no
  acknowledgment of a cancellation, it writes the store twice, the member is appended
  with the keyword as payment proof, a notice is posted and the payments entry of the
  member is created.
\<close>

theorem cancel_at_payment_proof_joins:
  "lower (strip ''cancel'') = ''cancel'' \<and>
   jointeam_cmd True 2 (Some ''ABCDEF'') [Reply ''Ace'', Reply ''cancel''] (Some notice_b)
       store_foxes_posted =
     [Send (AskIGN ''Foxes''), WaitFor 300, Send AskPayment, WaitFor 600,
      SaveData (store_foxes_posted
        \<lparr>teams := [(''ABCDEF'', (new_team ''Foxes'' 1)
            \<lparr>admin_msg := Some notice_a,
             members := [captain_entry 1, member_entry 2 ''Ace'' ''cancel'']\<rparr>)]\<rparr>),
      PostEmbed ''Team Member Payment (Pending)'' notice_b,
      SaveData (store_foxes_posted
        \<lparr>teams := [(''ABCDEF'', (new_team ''Foxes'' 1)
            \<lparr>admin_msg := Some notice_a,
             members := [captain_entry 1,
                         (member_entry 2 ''Ace'' ''cancel'')\<lparr>m_payment_msg := Some notice_b\<rparr>]\<rparr>)],
         payments := (payments store_foxes_posted)
            (TeamMemberKey ''ABCDEF'' 2 \<mapsto> team_member_payment ''ABCDEF'' 2 notice_b)\<rparr>),
      Send JoinThanks, EditEmbed 10 20 None] \<and>
   m_payment_proof (member_entry 2 ''Ace'' ''cancel'') = Some ''cancel''"
  by (simp add: jointeam_cmd_def jointeam_checks_def join_complete_def text_defs
      store_foxes_posted_def new_team_def captain_entry_def has_member_def member_entry_def
      notice_a_def)

section \<open>The answers of the solo flow\<close>

text \<open>When the loop over the questions ends with a dictionary, the dictionary has an
  answer for every question, so building the record raises no \<^verbatim>\<open>KeyError\<close>.\<close>

lemma ask_questions_keys:
  "ask_questions qs evs m = (acts, Some b) \<Longrightarrow> set qs \<subseteq> dom b \<and> dom m \<subseteq> dom b"
proof (induction qs arbitrary: evs m acts)
  case Nil
  then show ?case by auto
next
  case (Cons k qs)
  note IH = Cons.IH and prems = Cons.prems
  show ?case
  proof (cases evs)
    case Nil
    with prems show ?thesis by simp
  next
    case (Cons e es)
    note evs = Cons
    show ?thesis
    proof (cases e)
      case Timeout
      with evs prems show ?thesis by simp
    next
      case (Reply c)
      with evs prems obtain acts' where
        "ask_questions qs es (m(k \<mapsto> strip c)) = (acts', Some b)"
        by (auto split: if_splits prod.splits)
      from IH[OF this] have i: "set qs \<subseteq> dom b \<and> dom (m(k \<mapsto> strip c)) \<subseteq> dom b" .
      have d: "dom (m(k \<mapsto> strip c)) = insert k (dom m)"
        by simp
      from i show ?thesis
        unfolding d by auto
    qed
  qed
qed

lemma answer_found:
  "ask_questions questions evs Map.empty = (acts, Some b) \<Longrightarrow> k \<in> set questions \<Longrightarrow>
   b k = Some (answer b k)"
  using ask_questions_keys[of questions evs Map.empty acts b]
  by (auto simp: answer_def)

end
